theory Spec2Isabelle
  imports Main "HOL-Library.Word"
begin

section \<open>usbredirserver: the program state and its environment\<close>

text \<open>
  The server is a single-threaded C program whose behaviour is driven by what the
  operating system, libusb and the usbredirhost library answer.  The model keeps the
  program's global variables in a record, threads that record through every function,
  and reads each answer of the outside world from an environment \<open>env\<close>: a family of
  oracles indexed by a clock that advances at every external call.  Every external call
  is appended to a trace, so that statements about what the program does, and in which
  order, are statements about that list.  The log lines of \<open>INFO\<close> and \<open>DEBUG\<close>
  (lines 65-95) are left out: they write to stderr and influence nothing; the messages
  that precede an exit are kept.
\<close>

type_synonym fd = int

definition EINTR :: int where "EINTR = 4"
definition EBADF :: int where "EBADF = 9"
definition EAGAIN :: int where "EAGAIN = 11"
definition EPIPE :: int where "EPIPE = 32"

text \<open>The result of \<open>read(2)\<close> or \<open>write(2)\<close>: a byte count, or \<open>-1\<close> with an errno.\<close>

datatype io_result = Io_done nat | Io_failed int

fun io_r :: "io_result \<Rightarrow> int" where
  "io_r (Io_done k) = int k"
| "io_r (Io_failed er) = -1"

fun io_errno :: "io_result \<Rightarrow> int" where
  "io_errno (Io_done k) = 0"
| "io_errno (Io_failed er) = er"

text \<open>
  \<open>uint32_t peer_caps[USB_REDIR_CAPS_SIZE]\<close>: the capability vector of the protocol
  layer.  A redirection-host instance is opaque to the server; the model keeps an
  identifier and the capability vector.
\<close>

type_synonym caps = "32 word list"

record host =
  host_id :: nat
  peer_caps :: caps

text \<open>A \<open>libusb_device\<close> as \<open>find_device\<close> sees it (\<open>libusb_get_bus_number\<close> and
  \<open>libusb_get_device_address\<close> return a \<open>uint8_t\<close>), and a \<open>libusb_pollfd\<close>, of whose
  \<open>events\<close> the program reads the bits \<open>POLLIN\<close> and \<open>POLLOUT\<close>.\<close>

record usb_device =
  bus_number :: "8 word"
  device_address :: "8 word"

record pollfd =
  pfd :: fd
  pollin :: bool
  pollout :: bool

text \<open>The library invokes the two transport callbacks; a script lists the invocations
  of one library call together with what the operating system answers to each.\<close>

datatype callback = Call_read io_result | Call_write io_result

datatype select_answer = Sel_failed int | Sel_ready "fd list" "fd list"

datatype device_list = Dev_list "usb_device list" | Dev_error int

datatype timeout = Lib_timeout | Default_timeout int

datatype stream = Stdout | Stderr

datatype site = Read_callback | Write_callback | Main_loop | Main_fn

datatype event =
    Sys_read fd io_result
  | Sys_write fd io_result
  | Sys_close site fd
  | Sys_select int "fd list" "fd list" "timeout option"
  | Sys_sleep int
  | Sys_perror string
  | Sys_print stream string
  | Sys_sigaction
  | Sys_socket
  | Sys_setsockopt fd
  | Sys_bind fd "16 word"
  | Sys_listen fd
  | Sys_accept fd
  | Sys_fcntl fd
  | Host_has_data_to_write
  | Host_read_guest_data
  | Host_write_guest_data
  | Host_is_disconnected
  | Host_disconnect
  | Host_save_caps
  | Host_open "nat option" bool
  | Host_restore_caps caps
  | Host_close
  | Usb_get_pollfds
  | Usb_get_next_timeout
  | Usb_handle_events_timeout
  | Usb_get_configuration
  | Usb_exit
  | Usb_init
  | Usb_set_debug int
  | Usb_open_device_with_vid_pid "16 word" "16 word"
  | Usb_get_device_list
  | Usb_open usb_device
  | Usb_free_device_list
  | Enter_reconnecting

record env =
  sig_delivered :: "nat \<Rightarrow> bool"
  has_data_to_write_res :: "nat \<Rightarrow> int"
  get_pollfds_res :: "nat \<Rightarrow> pollfd list"
  get_next_timeout_res :: "nat \<Rightarrow> int"
  select_res :: "nat \<Rightarrow> select_answer"
  read_guest_data_res :: "nat \<Rightarrow> callback list \<times> caps option \<times> int"
  write_guest_data_res :: "nat \<Rightarrow> callback list \<times> int"
  is_disconnected_res :: "nat \<Rightarrow> int"
  get_configuration_res :: "nat \<Rightarrow> int"
  libusb_init_res :: "nat \<Rightarrow> int \<times> nat"
  open_vid_pid_res :: "nat \<Rightarrow> nat option"
  get_device_list_res :: "nat \<Rightarrow> device_list"
  libusb_open_res :: "nat \<Rightarrow> int \<times> nat"
  host_open_res :: "nat \<Rightarrow> host option"
  socket_res :: "nat \<Rightarrow> int"
  setsockopt_res :: "nat \<Rightarrow> int"
  bind_res :: "nat \<Rightarrow> int \<times> int"
  strerror_res :: "int \<Rightarrow> string"
  listen_res :: "nat \<Rightarrow> int"
  accept_res :: "nat \<Rightarrow> int \<times> int"
  fcntl_res :: "nat \<Rightarrow> int"

text \<open>
  The global variables of \<open>usbredirserver.c\<close> (lines 43-54), the clock of the
  environment and the trace.  \<open>running\<close> and \<open>wait_mode\<close> are C ints used only as
  truth values; \<open>handle\<close> and \<open>host\<close> are pointers, \<open>None\<close> being \<open>NULL\<close>.
\<close>

record state =
  verbose :: int
  client_fd :: fd
  running :: bool
  wait_mode :: bool
  wait_timeout :: int
  ctx :: nat
  host :: "host option"
  usbvendor :: int
  usbproduct :: int
  usbbus :: int
  usbaddr :: int
  handle :: "nat option"
  clock :: nat
  trace :: "event list"

text \<open>\<open>quit_handler\<close> (lines 329-332) is installed for SIGINT, SIGHUP, SIGTERM and
  SIGQUIT.\<close>

definition quit_handler :: "state \<Rightarrow> state" where
  "quit_handler s = s\<lparr>running := False\<rparr>"

text \<open>
  One external call: the event is recorded and the clock advances; a termination
  signal that the environment delivers during the call runs \<open>quit_handler\<close>.
\<close>

definition call :: "env \<Rightarrow> event \<Rightarrow> state \<Rightarrow> state" where
  "call e ev s =
     (let s' = s\<lparr>clock := Suc (clock s), trace := trace s @ [ev]\<rparr>
      in if sig_delivered e (clock s) then quit_handler s' else s')"

text \<open>A label in the trace for a program point; no call is made and no time passes.\<close>

definition label :: "event \<Rightarrow> state \<Rightarrow> state" where
  "label ev s = s\<lparr>trace := trace s @ [ev]\<rparr>"

section \<open>The transport callbacks\<close>

text \<open>
  What the operating system answers to \<open>read\<close>/\<open>write\<close> on \<open>client_fd\<close>: the
  environment's answer on an open descriptor, \<open>EBADF\<close> on the sentinel \<open>-1\<close>.
\<close>

definition os_io :: "state \<Rightarrow> io_result \<Rightarrow> io_result" where
  "os_io s a = (if client_fd s = -1 then Io_failed EBADF else a)"

text \<open>\<open>usbredirserver_read\<close>, lines 97-113.\<close>

definition usbredirserver_read :: "env \<Rightarrow> io_result \<Rightarrow> state \<Rightarrow> int \<times> state" where
  "usbredirserver_read e a s =
     (let res = os_io s a;
          r = io_r res;
          s1 = call e (Sys_read (client_fd s) res) s
      in if r < 0 then
           (if io_errno res = EAGAIN then (0, s1) else (-1, s1))
         else if r = 0 then
           (r, (call e (Sys_close Read_callback (client_fd s1)) s1)\<lparr>client_fd := -1\<rparr>)
         else (r, s1))"

text \<open>\<open>usbredirserver_write\<close>, lines 115-132.\<close>

definition usbredirserver_write :: "env \<Rightarrow> io_result \<Rightarrow> state \<Rightarrow> int \<times> state" where
  "usbredirserver_write e a s =
     (let res = os_io s a;
          r = io_r res;
          s1 = call e (Sys_write (client_fd s) res) s
      in if r < 0 then
           (if io_errno res = EAGAIN then (0, s1)
            else if io_errno res = EPIPE then
              (0, (call e (Sys_close Write_callback (client_fd s1)) s1)\<lparr>client_fd := -1\<rparr>)
            else (-1, s1))
         else (r, s1))"

section \<open>The redirection-host library\<close>

text \<open>
  The library runs the transport callbacks while it pumps data.  Which callbacks one
  call runs, and what the call returns, is the environment's choice; the callbacks
  themselves are the server's code above.  The callbacks are invoked only from
  \<open>usbredirhost_read_guest_data\<close> and \<open>usbredirhost_write_guest_data\<close>.
\<close>

fun run_callbacks :: "env \<Rightarrow> callback list \<Rightarrow> state \<Rightarrow> state" where
  "run_callbacks e [] s = s"
| "run_callbacks e (Call_read a # cs) s =
     run_callbacks e cs (snd (usbredirserver_read e a s))"
| "run_callbacks e (Call_write a # cs) s =
     run_callbacks e cs (snd (usbredirserver_write e a s))"

definition usbredirhost_has_data_to_write :: "env \<Rightarrow> state \<Rightarrow> int \<times> state" where
  "usbredirhost_has_data_to_write e s =
     (has_data_to_write_res e (clock s), call e Host_has_data_to_write s)"

text \<open>Pumping inbound data may also bring the peer's capabilities (its hello packet).\<close>

definition set_peer_caps :: "caps option \<Rightarrow> state \<Rightarrow> state" where
  "set_peer_caps hello s =
     (case hello of
        None \<Rightarrow> s
      | Some c \<Rightarrow> s\<lparr>host := map_option (\<lambda>h. h\<lparr>peer_caps := c\<rparr>) (host s)\<rparr>)"

definition usbredirhost_read_guest_data :: "env \<Rightarrow> state \<Rightarrow> int \<times> state" where
  "usbredirhost_read_guest_data e s =
     (case read_guest_data_res e (clock s) of
        (cbs, hello, rc) \<Rightarrow>
          (rc, set_peer_caps hello (run_callbacks e cbs (call e Host_read_guest_data s))))"

definition usbredirhost_write_guest_data :: "env \<Rightarrow> state \<Rightarrow> int \<times> state" where
  "usbredirhost_write_guest_data e s =
     (case write_guest_data_res e (clock s) of
        (cbs, rc) \<Rightarrow> (rc, run_callbacks e cbs (call e Host_write_guest_data s)))"

definition usbredirhost_is_disconnected :: "env \<Rightarrow> state \<Rightarrow> int \<times> state" where
  "usbredirhost_is_disconnected e s =
     (is_disconnected_res e (clock s), call e Host_is_disconnected s)"

definition usbredirhost_disconnect :: "env \<Rightarrow> state \<Rightarrow> state" where
  "usbredirhost_disconnect e s = call e Host_disconnect s"

text \<open>
  Modelled from the spec: \<open>usbredirhost_save_caps\<close> and
  \<open>usbredirhost_restore_caps_and_send_device_connect\<close> live in the library's source file,
  which is not among the sources; the spec describes them as \<open>saveCapabilities() ->
  snapshot\<close> and \<open>restoreCapabilitiesAndReconnect(snapshot)\<close>, the snapshot being the
  vector of negotiated feature flags that is captured from one instance and replayed
  into the replacement instance.
\<close>

definition usbredirhost_save_caps :: "host \<Rightarrow> caps" where
  "usbredirhost_save_caps h = peer_caps h"

definition usbredirhost_restore_caps_and_send_device_connect :: "host \<Rightarrow> caps \<Rightarrow> host" where
  "usbredirhost_restore_caps_and_send_device_connect h c = h\<lparr>peer_caps := c\<rparr>"

section \<open>The USB library and the operating system\<close>

definition libusb_get_pollfds :: "env \<Rightarrow> state \<Rightarrow> pollfd list \<times> state" where
  "libusb_get_pollfds e s = (get_pollfds_res e (clock s), call e Usb_get_pollfds s)"

definition libusb_get_next_timeout :: "env \<Rightarrow> state \<Rightarrow> int \<times> state" where
  "libusb_get_next_timeout e s =
     (get_next_timeout_res e (clock s), call e Usb_get_next_timeout s)"

definition libusb_handle_events_timeout :: "env \<Rightarrow> state \<Rightarrow> state" where
  "libusb_handle_events_timeout e s = call e Usb_handle_events_timeout s"

definition libusb_get_configuration :: "env \<Rightarrow> state \<Rightarrow> int \<times> state" where
  "libusb_get_configuration e s =
     (get_configuration_res e (clock s), call e Usb_get_configuration s)"

definition libusb_exit :: "env \<Rightarrow> state \<Rightarrow> state" where
  "libusb_exit e s = call e Usb_exit s"

definition libusb_init :: "env \<Rightarrow> state \<Rightarrow> int \<times> state" where
  "libusb_init e s =
     (case libusb_init_res e (clock s) of
        (rc, c) \<Rightarrow> (rc, (call e Usb_init s)\<lparr>ctx := (if rc = 0 then c else ctx s)\<rparr>))"

definition libusb_set_debug :: "env \<Rightarrow> state \<Rightarrow> state" where
  "libusb_set_debug e s = call e (Usb_set_debug (verbose s)) s"

definition sleep :: "env \<Rightarrow> int \<Rightarrow> state \<Rightarrow> state" where
  "sleep e secs s = call e (Sys_sleep secs) s"

text \<open>
  Descriptor sets are lists without repetition.  \<open>select\<close> either fails with an errno
  or leaves in each set the descriptors of that set which are ready, and returns how many
  it left.  Without a timeout the real call returns only when a descriptor is ready or
  a signal arrives; the environment is not held to that, which does no harm to what is
  proved for every environment.
\<close>

definition FD_SET :: "fd \<Rightarrow> fd list \<Rightarrow> fd list" where
  "FD_SET d fds = List.insert d fds"

definition FD_ISSET :: "fd \<Rightarrow> fd list \<Rightarrow> bool" where
  "FD_ISSET d fds = (d \<in> set fds)"

definition select ::
  "env \<Rightarrow> int \<Rightarrow> fd list \<Rightarrow> fd list \<Rightarrow> timeout option \<Rightarrow> state \<Rightarrow> select_answer \<times> state" where
  "select e nfds readfds writefds timeout_p s =
     ((case select_res e (clock s) of
         Sel_failed er \<Rightarrow> Sel_failed er
       | Sel_ready r w \<Rightarrow>
           Sel_ready (filter (\<lambda>d. d \<in> set r) readfds) (filter (\<lambda>d. d \<in> set w) writefds)),
      call e (Sys_select nfds readfds writefds timeout_p) s)"

section \<open>The Device Locator\<close>

text \<open>The scan of lines 162-166: the first device with the wanted bus and address.\<close>

fun scan_devices :: "int \<Rightarrow> int \<Rightarrow> usb_device list \<Rightarrow> usb_device option" where
  "scan_devices b a [] = None"
| "scan_devices b a (d # ds) =
     (if uint (bus_number d) = b \<and> uint (device_address d) = a then Some d
      else scan_devices b a ds)"

text \<open>\<open>libusb_open\<close> stores a handle only when it succeeds.\<close>

definition libusb_open :: "env \<Rightarrow> usb_device \<Rightarrow> state \<Rightarrow> int \<times> state" where
  "libusb_open e d s =
     (case libusb_open_res e (clock s) of
        (rc, h) \<Rightarrow>
          (rc, (call e (Usb_open d) s)\<lparr>handle := (if rc = 0 then Some h else handle s)\<rparr>))"

text \<open>\<open>find_device\<close>, lines 148-176.  A failed \<open>libusb_get_device_list\<close> returns a
  negative count, so the scan finds nothing.  \<open>libusb_open_device_with_vid_pid\<close> takes
  the two ids as \<open>uint16_t\<close>; the \<open>int\<close> variables are converted.\<close>

fun devices :: "device_list \<Rightarrow> usb_device list" where
  "devices (Dev_list l) = l"
| "devices (Dev_error er) = []"

definition find_device :: "env \<Rightarrow> state \<Rightarrow> state" where
  "find_device e s =
     (if usbvendor s \<noteq> -1 then
        (call e (Usb_open_device_with_vid_pid (word_of_int (usbvendor s))
                   (word_of_int (usbproduct s))) s)
          \<lparr>handle := open_vid_pid_res e (clock s)\<rparr>
      else
        (let devs = devices (get_device_list_res e (clock s));
             s1 = call e Usb_get_device_list s;
             s2 = (case scan_devices (usbbus s1) (usbaddr s1) devs of
                     Some d \<Rightarrow> snd (libusb_open e d s1)
                   | None \<Rightarrow> s1)
         in call e Usb_free_device_list s2))"


section \<open>The event loop\<close>

text \<open>
  How a piece of the program can end: it returns, the process exits with a status, a
  \<open>NULL\<close> instance reaches the library, or the fuel of the model runs out while the
  program is still looping.
\<close>

datatype 'a outcome = Done 'a | Exited int state | Crashed state | Fuel_out state

datatype ctl = Next | Break

text \<open>Lines 200-209: the descriptors libusb wants watched.\<close>

fun add_pollfds ::
  "pollfd list \<Rightarrow> fd list \<times> fd list \<times> int \<Rightarrow> fd list \<times> fd list \<times> int" where
  "add_pollfds [] acc = acc"
| "add_pollfds (p # ps) (readfds, writefds, nfds) =
     add_pollfds ps
       (if pollin p then FD_SET (pfd p) readfds else readfds,
        if pollout p then FD_SET (pfd p) writefds else writefds,
        if pfd p \<ge> nfds then pfd p + 1 else nfds)"

text \<open>Lines 189-221: build the descriptor sets, choose the timeout, wait.\<close>

definition wait_for_events :: "env \<Rightarrow> state \<Rightarrow> pollfd list \<times> select_answer \<times> state" where
  "wait_for_events e s0 =
     (let (has, s1) = usbredirhost_has_data_to_write e s0;
          readfds = FD_SET (client_fd s1) [];
          writefds = (if has \<noteq> 0 then FD_SET (client_fd s1) [] else []);
          nfds = client_fd s1 + 1;
          (pollfds, s2) = libusb_get_pollfds e s1;
          (readfds, writefds, nfds) = add_pollfds pollfds (readfds, writefds, nfds);
          (t, s3) = libusb_get_next_timeout e s2;
          timeout_p = (if t = 1 then Some Lib_timeout
                       else if wait_mode s3 then Some (Default_timeout (wait_timeout s3))
                       else None);
          (ans, s4) = select e nfds readfds writefds timeout_p s3
      in (pollfds, ans, s4))"

text \<open>Lines 258-264: one call for all of libusb's ready descriptors.\<close>

definition usb_ready :: "pollfd list \<Rightarrow> fd list \<Rightarrow> fd list \<Rightarrow> bool" where
  "usb_ready pollfds readfds writefds =
     list_ex (\<lambda>p. FD_ISSET (pfd p) readfds \<or> FD_ISSET (pfd p) writefds) pollfds"

text \<open>Lines 237-264: pump inbound, pump outbound, service libusb.\<close>

definition dispatch :: "env \<Rightarrow> pollfd list \<Rightarrow> fd list \<Rightarrow> fd list \<Rightarrow> state \<Rightarrow> ctl \<times> state" where
  "dispatch e pollfds readfds writefds s =
     (let (err, s1) = (if FD_ISSET (client_fd s) readfds
                       then usbredirhost_read_guest_data e s else (0, s))
      in if err \<noteq> 0 then (Break, s1)
         else if client_fd s1 = -1 then (Break, s1)
         else
           (let (err2, s2) = (if FD_ISSET (client_fd s1) writefds
                              then usbredirhost_write_guest_data e s1 else (0, s1))
            in if err2 \<noteq> 0 then (Break, s2)
               else (Next, if usb_ready pollfds readfds writefds
                           then libusb_handle_events_timeout e s2 else s2)))"

text \<open>
  Lines 305-313: the device is back.  The capabilities of the old instance are saved,
  a new instance is opened with the no-hello flag, the capabilities are restored into
  it and the resulting data is flushed.  The result of \<open>usbredirhost_open\<close> is not
  checked; a \<open>NULL\<close> instance handed to the library is the outcome \<open>Crashed\<close>.
\<close>

definition reopen :: "env \<Rightarrow> state \<Rightarrow> state outcome" where
  "reopen e s =
     (case host s of
        None \<Rightarrow> Crashed (call e Host_save_caps s)
      | Some old \<Rightarrow>
          (let saved = usbredirhost_save_caps old;
               s1 = call e Host_save_caps s;
               new = host_open_res e (clock s1);
               s2 = (call e (Host_open (handle s1) True) s1)\<lparr>host := new\<rparr>;
               s3 = call e (Host_restore_caps saved) s2
           in case new of
                None \<Rightarrow> Crashed s3
              | Some h \<Rightarrow>
                  Done (snd (usbredirhost_write_guest_data e
                    (s3\<lparr>host := Some (usbredirhost_restore_caps_and_send_device_connect h saved)\<rparr>)))))"

text \<open>Lines 287-315: the retry block.\<close>

fun retry_loop :: "nat \<Rightarrow> env \<Rightarrow> state \<Rightarrow> state outcome" where
  "retry_loop 0 e s = (if client_fd s \<noteq> -1 then Fuel_out s else Done s)"
| "retry_loop (Suc k) e s =
     (if client_fd s \<noteq> -1 then
        (let s1 = libusb_exit e s;
             (rc, s2) = libusb_init e s1
         in if rc \<noteq> 0 then
              Exited 1 (call e (Sys_print Stderr ''Could not init libusb\<newline>'') s2)
            else
              (let s3 = libusb_set_debug e s2;
                   s4 = find_device e s3
               in case handle s4 of
                    None \<Rightarrow> retry_loop k e (sleep e (wait_timeout s4) s4)
                  | Some h \<Rightarrow> reopen e s4))
      else Done s)"

text \<open>Lines 283-317: flush, pause, drain, then retry until the device is back.  The
  label marks the program point of line 283 at which the block is entered.\<close>

definition reconnect :: "nat \<Rightarrow> env \<Rightarrow> state \<Rightarrow> state outcome" where
  "reconnect k e s =
     (let s0 = label Enter_reconnecting s;
          s1 = snd (usbredirhost_write_guest_data e s0);
          s2 = sleep e (wait_timeout s1) s1;
          s3 = snd (usbredirhost_read_guest_data e s2)
      in retry_loop k e s3)"

text \<open>Lines 272-282: on a timed wake-up, probe the device.\<close>

definition probe :: "env \<Rightarrow> int \<Rightarrow> int \<Rightarrow> state \<Rightarrow> int \<times> state" where
  "probe e n disconnected s =
     (if n = 0 then
        (let (err, s1) = libusb_get_configuration e s
         in if err \<noteq> 0 \<and> disconnected = 0 then (1, usbredirhost_disconnect e s1)
            else (disconnected, s1))
      else (disconnected, s))"

text \<open>Lines 265-319: the wait-mode state machine; the result carries
  \<open>wait_mode_state\<close>.\<close>

definition wait_mode_eval :: "nat \<Rightarrow> env \<Rightarrow> int \<Rightarrow> int \<Rightarrow> state \<Rightarrow> (int \<times> state) outcome" where
  "wait_mode_eval k e n wait_mode_state s =
     (if wait_mode s then
        (let (disconnected, s1) = usbredirhost_is_disconnected e s
         in if disconnected = 0 \<and> wait_mode_state = 0 then Done (1, s1)
            else if wait_mode_state = 1 \<and> client_fd s1 \<noteq> -1 then
              (let (disconnected', s2) = probe e n disconnected s1
               in if disconnected' = 1 then
                    (case reconnect k e s2 of
                       Done s3 \<Rightarrow> Done (0, s3)
                     | Exited c s3 \<Rightarrow> Exited c s3
                     | Crashed s3 \<Rightarrow> Crashed s3
                     | Fuel_out s3 \<Rightarrow> Fuel_out s3)
                  else Done (wait_mode_state, s2))
            else Done (wait_mode_state, s1))
      else Done (wait_mode_state, s))"

text \<open>The number \<open>select\<close> returns on success: the descriptors left in the sets.\<close>

definition ready_count :: "fd list \<Rightarrow> fd list \<Rightarrow> int" where
  "ready_count readfds writefds = int (length readfds) + int (length writefds)"

text \<open>Lines 188-319: one iteration of the loop body.\<close>

definition iteration :: "nat \<Rightarrow> env \<Rightarrow> int \<Rightarrow> state \<Rightarrow> (ctl \<times> int \<times> state) outcome" where
  "iteration k e wait_mode_state s =
     (case wait_for_events e s of
        (pollfds, Sel_failed er, s1) \<Rightarrow>
          (if er = EINTR then Done (Next, wait_mode_state, s1)
           else Done (Break, wait_mode_state, call e (Sys_perror ''select'') s1))
      | (pollfds, Sel_ready readfds writefds, s1) \<Rightarrow>
          (let n = ready_count readfds writefds;
               s2 = (if n = 0 then libusb_handle_events_timeout e s1 else s1)
           in if n = 0 \<and> \<not> wait_mode s2 then Done (Next, wait_mode_state, s2)
              else
                (case dispatch e pollfds readfds writefds s2 of
                   (Break, s3) \<Rightarrow> Done (Break, wait_mode_state, s3)
                 | (Next, s3) \<Rightarrow>
                     (case wait_mode_eval k e n wait_mode_state s3 of
                        Done (w, s4) \<Rightarrow> Done (Next, w, s4)
                      | Exited c s4 \<Rightarrow> Exited c s4
                      | Crashed s4 \<Rightarrow> Crashed s4
                      | Fuel_out s4 \<Rightarrow> Fuel_out s4))))"

text \<open>The \<open>while (running && client_fd != -1)\<close> of line 187.\<close>

fun main_loop :: "nat \<Rightarrow> env \<Rightarrow> int \<Rightarrow> state \<Rightarrow> state outcome" where
  "main_loop 0 e w s = (if running s \<and> client_fd s \<noteq> -1 then Fuel_out s else Done s)"
| "main_loop (Suc k) e w s =
     (if running s \<and> client_fd s \<noteq> -1 then
        (case iteration k e w s of
           Done (Next, w', s') \<Rightarrow> main_loop k e w' s'
         | Done (Break, w', s') \<Rightarrow> Done s'
         | Exited c s' \<Rightarrow> Exited c s'
         | Crashed s' \<Rightarrow> Crashed s'
         | Fuel_out s' \<Rightarrow> Fuel_out s')
      else Done s)"

text \<open>Lines 321-326: leaving the loop.\<close>

definition leave_main_loop :: "env \<Rightarrow> state \<Rightarrow> state" where
  "leave_main_loop e s =
     (if client_fd s \<noteq> -1
      then (call e (Sys_close Main_loop (client_fd s)) s)\<lparr>client_fd := -1\<rparr>
      else s)"

text \<open>\<open>run_main_loop\<close>, lines 178-327.\<close>

definition run_main_loop :: "nat \<Rightarrow> env \<Rightarrow> state \<Rightarrow> state outcome" where
  "run_main_loop k e s =
     (case main_loop k e 0 s of
        Done s' \<Rightarrow> Done (leave_main_loop e s')
      | Exited c s' \<Rightarrow> Exited c s'
      | Crashed s' \<Rightarrow> Crashed s'
      | Fuel_out s' \<Rightarrow> Fuel_out s')"

text \<open>The state in which a piece of the program ends, however it ends.\<close>

fun end_state :: "('a \<Rightarrow> state) \<Rightarrow> 'a outcome \<Rightarrow> state" where
  "end_state f (Done x) = f x"
| "end_state f (Exited c s) = s"
| "end_state f (Crashed s) = s"
| "end_state f (Fuel_out s) = s"

abbreviation final :: "state outcome \<Rightarrow> state" where
  "final \<equiv> end_state (\<lambda>s. s)"

fun is_done :: "'a outcome \<Rightarrow> bool" where
  "is_done (Done x) = True"
| "is_done (Exited c s) = False"
| "is_done (Crashed s) = False"
| "is_done (Fuel_out s) = False"

section \<open>Traces\<close>

text \<open>The events a piece of the program adds to the trace.\<close>

definition emitted :: "state \<Rightarrow> state \<Rightarrow> event list" where
  "emitted s s' = drop (length (trace s)) (trace s')"

text \<open>A close made by a transport callback (the peer has closed: end-of-file on read,
  \<open>EPIPE\<close> on write), and a close made by the server outside the callbacks.\<close>

fun peer_close :: "event \<Rightarrow> bool" where
  "peer_close (Sys_close Read_callback d) = True"
| "peer_close (Sys_close Write_callback d) = True"
| "peer_close ev = False"

fun engine_close :: "event \<Rightarrow> bool" where
  "engine_close (Sys_close Main_loop d) = True"
| "engine_close (Sys_close Main_fn d) = True"
| "engine_close ev = False"

text \<open>What must not follow a close by the peer: a call of the outbound pump, the entry
  into the reconnection block, the first call of the retry block, a second close.\<close>

fun forbidden_after_close :: "event \<Rightarrow> bool" where
  "forbidden_after_close Host_write_guest_data = True"
| "forbidden_after_close Enter_reconnecting = True"
| "forbidden_after_close Usb_exit = True"
| "forbidden_after_close (Sys_close site d) = True"
| "forbidden_after_close ev = False"

fun quiet_after_close :: "event list \<Rightarrow> bool" where
  "quiet_after_close [] = True"
| "quiet_after_close (ev # evs) =
     ((if peer_close ev then list_all (\<lambda>x. \<not> forbidden_after_close x) evs else True)
      \<and> quiet_after_close evs)"

text \<open>The invariant of the event loop, relative to the state \<open>s0\<close> in which it is
  entered: the trace grows; nothing forbidden follows a close by the peer; the server
  itself closes nothing; \<open>client_fd\<close> is \<open>-1\<close> once the peer has closed and unchanged
  before.\<close>

definition loop_inv :: "state \<Rightarrow> state \<Rightarrow> bool" where
  "loop_inv s0 s =
     (\<exists>evs. trace s = trace s0 @ evs \<and> quiet_after_close evs
        \<and> list_all (\<lambda>ev. \<not> engine_close ev) evs
        \<and> (if list_ex peer_close evs then client_fd s = -1 else client_fd s = client_fd s0))"


section \<open>The command line\<close>

text \<open>
  \<open>strtol\<close> of the C library on a platform with 64-bit \<open>long\<close> and 32-bit \<open>int\<close>: it
  skips white space, reads an optional sign, for base 16 an optional \<open>0x\<close>, then the
  digits of the base; it returns the value, clamped to the range of \<open>long\<close>, and the
  unread rest of the string.  When there is no digit it returns 0 and the whole string.
  A C string is a list of characters without the terminating NUL; \<open>deref\<close> reads the
  character a pointer into the string points to.
\<close>

definition NUL :: char where "NUL = CHR 0x00"

definition deref :: "string \<Rightarrow> char" where
  "deref p = (case p of [] \<Rightarrow> NUL | c # cs \<Rightarrow> c)"

definition isspace :: "char \<Rightarrow> bool" where
  "isspace c = (c = CHR '' '' \<or> (9 \<le> (of_char c :: nat) \<and> (of_char c :: nat) \<le> 13))"

definition digit_value :: "char \<Rightarrow> nat option" where
  "digit_value c =
     (let n = (of_char c :: nat)
      in if 48 \<le> n \<and> n \<le> 57 then Some (n - 48)
         else if 97 \<le> n \<and> n \<le> 122 then Some (n - 87)
         else if 65 \<le> n \<and> n \<le> 90 then Some (n - 55)
         else None)"

definition is_digit :: "nat \<Rightarrow> char \<Rightarrow> bool" where
  "is_digit base c = (case digit_value c of None \<Rightarrow> False | Some d \<Rightarrow> d < base)"

fun parse_digits :: "nat \<Rightarrow> int \<Rightarrow> string \<Rightarrow> int \<times> string" where
  "parse_digits base acc [] = (acc, [])"
| "parse_digits base acc (c # cs) =
     (if is_digit base c
      then parse_digits base (acc * int base + int (the (digit_value c))) cs
      else (acc, c # cs))"

definition hex_prefix :: "string \<Rightarrow> bool" where
  "hex_prefix p =
     (case p of
        z # x # d # r \<Rightarrow> z = CHR ''0'' \<and> (x = CHR ''x'' \<or> x = CHR ''X'') \<and> is_digit 16 d
      | _ \<Rightarrow> False)"

definition LONG_MAX :: int where "LONG_MAX = 2 ^ 63 - 1"
definition LONG_MIN :: int where "LONG_MIN = - (2 ^ 63)"

definition strtol :: "string \<Rightarrow> nat \<Rightarrow> int \<times> string" where
  "strtol nptr base =
     (let p1 = dropWhile isspace nptr;
          neg = (deref p1 = CHR ''-'');
          p2 = (if deref p1 = CHR ''-'' \<or> deref p1 = CHR ''+'' then tl p1 else p1);
          p3 = (if base = 16 \<and> hex_prefix p2 then drop 2 p2 else p2);
          (v, endptr) = parse_digits base 0 p3
      in if length endptr = length p3 then (0, nptr)
         else (max LONG_MIN (min LONG_MAX (if neg then - v else v)), endptr))"

text \<open>The assignment of a \<open>long\<close> to an \<open>int\<close> variable keeps the low 32 bits.\<close>

definition long_to_int :: "int \<Rightarrow> int" where
  "long_to_int v = sint (word_of_int v :: 32 word)"

definition strchr :: "string \<Rightarrow> char \<Rightarrow> string option" where
  "strchr p c = (case dropWhile (\<lambda>x. x \<noteq> c) p of [] \<Rightarrow> None | r \<Rightarrow> Some r)"

text \<open>\<open>usage\<close>, lines 134-140, and \<open>invalid_usb_device_id\<close>, lines 142-146.\<close>

definition usage_text :: "string \<Rightarrow> string" where
  "usage_text argv0 =
     ''Usage: '' @ argv0 @
     '' [-p|--port <port>] [-v|--verbose <0-5>] [-w|--wait] [-t|--wait-timeout #] <usbbus-usbaddr|vendorid:prodid>\<newline>''"

definition usage :: "env \<Rightarrow> int \<Rightarrow> string \<Rightarrow> state \<Rightarrow> 'a outcome" where
  "usage e exit_code argv0 s =
     Exited exit_code
       (call e (Sys_print (if exit_code \<noteq> 0 then Stderr else Stdout) (usage_text argv0)) s)"

definition invalid_usb_device_id :: "env \<Rightarrow> string \<Rightarrow> string \<Rightarrow> state \<Rightarrow> 'a outcome" where
  "invalid_usb_device_id e usb_device_id argv0 s =
     usage e 1 argv0
       (call e (Sys_print Stderr
          (''Invalid usb device identifier: '' @ usb_device_id @ ''\<newline>'')) s)"

text \<open>
  Lines 343-374.  \<open>getopt_long\<close> belongs to the C library; the option loop is given
  what it returns, call by call: the option character and \<open>optarg\<close>.  The local
  variable \<open>port\<close> is threaded through.  The message of a rejected value is
  \<open>msg\<close>, the value between single quotes (character \<open>0x27\<close>) and a newline.
\<close>

definition numeric_option ::
  "env \<Rightarrow> string \<Rightarrow> string \<Rightarrow> string \<Rightarrow> state \<Rightarrow> int outcome" where
  "numeric_option e msg optarg argv0 s =
     (case strtol optarg 10 of
        (v, endptr) \<Rightarrow>
          if deref endptr \<noteq> NUL
          then usage e 1 argv0
                 (call e (Sys_print Stderr (msg @ [CHR 0x27] @ optarg @ [CHR 0x27, CHR 0x0A])) s)
          else Done (long_to_int v))"

fun parse_options ::
  "env \<Rightarrow> string \<Rightarrow> (char \<times> string) list \<Rightarrow> int \<Rightarrow> state \<Rightarrow> (int \<times> state) outcome" where
  "parse_options e argv0 [] port s = Done (port, s)"
| "parse_options e argv0 ((c, optarg) # rest) port s =
     (if c = CHR ''p'' then
        (case numeric_option e ''Invalid value for --port: '' optarg argv0 s of
           Done v \<Rightarrow> parse_options e argv0 rest v s
         | Exited x s' \<Rightarrow> Exited x s' | Crashed s' \<Rightarrow> Crashed s' | Fuel_out s' \<Rightarrow> Fuel_out s')
      else if c = CHR ''v'' then
        (case numeric_option e ''Invalid value for --verbose: '' optarg argv0 s of
           Done v \<Rightarrow> parse_options e argv0 rest port (s\<lparr>verbose := v\<rparr>)
         | Exited x s' \<Rightarrow> Exited x s' | Crashed s' \<Rightarrow> Crashed s' | Fuel_out s' \<Rightarrow> Fuel_out s')
      else if c = CHR ''w'' then parse_options e argv0 rest port (s\<lparr>wait_mode := True\<rparr>)
      else if c = CHR ''t'' then
        (case numeric_option e ''Inalid value for --wait-timeout: '' optarg argv0 s of
           Done v \<Rightarrow> parse_options e argv0 rest port (s\<lparr>wait_timeout := v\<rparr>)
         | Exited x s' \<Rightarrow> Exited x s' | Crashed s' \<Rightarrow> Crashed s' | Fuel_out s' \<Rightarrow> Fuel_out s')
      else if c = CHR ''?'' \<or> c = CHR ''h'' then
        usage e (if c = CHR ''?'' then 1 else 0) argv0 s
      else parse_options e argv0 rest port s)"

text \<open>Lines 379-402: the device identifier \<open>argv[optind]\<close>.\<close>

definition parse_bus_addr ::
  "env \<Rightarrow> string \<Rightarrow> string \<Rightarrow> string \<Rightarrow> state \<Rightarrow> state outcome" where
  "parse_bus_addr e argv0 arg delim s =
     (case strtol arg 10 of
        (b, endptr) \<Rightarrow>
          let s1 = s\<lparr>usbbus := long_to_int b\<rparr>
          in if deref endptr \<noteq> CHR ''-'' then invalid_usb_device_id e arg argv0 s1
             else
               (case strtol (tl delim) 10 of
                  (a, endptr2) \<Rightarrow>
                    let s2 = s1\<lparr>usbaddr := long_to_int a\<rparr>
                    in if deref endptr2 \<noteq> NUL then invalid_usb_device_id e arg argv0 s2
                       else Done s2))"

definition parse_vid_pid :: "env \<Rightarrow> string \<Rightarrow> string \<Rightarrow> state \<Rightarrow> state outcome" where
  "parse_vid_pid e argv0 arg s =
     (case strchr arg (CHR '':'') of
        None \<Rightarrow> invalid_usb_device_id e arg argv0 s
      | Some delim \<Rightarrow>
          if deref (tl delim) = NUL then invalid_usb_device_id e arg argv0 s
          else
            (case strtol arg 16 of
               (v, endptr) \<Rightarrow>
                 let s1 = s\<lparr>usbvendor := long_to_int v\<rparr>
                 in if deref endptr \<noteq> CHR '':'' then invalid_usb_device_id e arg argv0 s1
                    else
                      (case strtol (tl delim) 16 of
                         (p, endptr2) \<Rightarrow>
                           let s2 = s1\<lparr>usbproduct := long_to_int p\<rparr>
                           in if deref endptr2 \<noteq> NUL then invalid_usb_device_id e arg argv0 s2
                              else Done s2)))"

definition parse_device_id :: "env \<Rightarrow> string \<Rightarrow> string \<Rightarrow> state \<Rightarrow> state outcome" where
  "parse_device_id e argv0 arg s =
     (case strchr arg (CHR ''-'') of
        None \<Rightarrow> parse_vid_pid e argv0 arg s
      | Some delim \<Rightarrow>
          if deref (tl delim) \<noteq> NUL then parse_bus_addr e argv0 arg delim s
          else parse_vid_pid e argv0 arg s)"

text \<open>Lines 375-407: exactly one argument must follow the options;
  \<open>args\<close> is \<open>argv[optind .. argc - 1]\<close>.\<close>

definition parse_arguments :: "env \<Rightarrow> string \<Rightarrow> string list \<Rightarrow> state \<Rightarrow> state outcome" where
  "parse_arguments e argv0 args s =
     (case args of
        [] \<Rightarrow> usage e 1 argv0
                (call e (Sys_print Stderr ''Missing usb device identifier argument\<newline>'') s)
      | arg # extra \<Rightarrow>
          (case parse_device_id e argv0 arg s of
             Done s1 \<Rightarrow>
               if extra \<noteq> [] then
                 usage e 1 argv0 (call e (Sys_print Stderr ''Excess non option arguments\<newline>'') s1)
               else Done s1
           | Exited x s' \<Rightarrow> Exited x s'
           | Crashed s' \<Rightarrow> Crashed s'
           | Fuel_out s' \<Rightarrow> Fuel_out s'))"

section \<open>The accept loop and \<open>main\<close>\<close>

text \<open>The initial values of the global variables, lines 43-54; \<open>usbredirparser_info\<close>
  is 3.\<close>

definition initial_state :: state where
  "initial_state =
     \<lparr>verbose = 3, client_fd = -1, running = True, wait_mode = False, wait_timeout = 3,
      ctx = 0, host = None, usbvendor = -1, usbproduct = -1, usbbus = -1, usbaddr = -1,
      handle = None, clock = 0, trace = []\<rparr>"

text \<open>Lines 452-469: accept a client and make its descriptor non-blocking.  The result
  says whether the loop goes on to the device (\<open>Some Next\<close>), starts over
  (\<open>None\<close>, the \<open>continue\<close> after \<open>EINTR\<close>) or is left (\<open>Some Break\<close>).\<close>

definition accept_client :: "env \<Rightarrow> fd \<Rightarrow> state \<Rightarrow> ctl option \<times> state" where
  "accept_client e server_fd s =
     (case accept_res e (clock s) of
        (c, er) \<Rightarrow>
          let s1 = (call e (Sys_accept server_fd) s)\<lparr>client_fd := c\<rparr>
          in if c = -1 then
               (if er = EINTR then (None, s1)
                else (Some Break, call e (Sys_perror ''accept'') s1))
             else
               (let flags = fcntl_res e (clock s1);
                    s2 = call e (Sys_fcntl c) s1
                in if flags = -1 then (Some Break, call e (Sys_perror ''fcntl F_GETFL'') s2)
                   else
                     (let flags2 = fcntl_res e (clock s2);
                          s3 = call e (Sys_fcntl c) s2
                      in if flags2 = -1
                         then (Some Break, call e (Sys_perror ''fcntl F_SETFL O_NONBLOCK'') s3)
                         else (Some Next, s3))))"

text \<open>Lines 449-491: \<open>while (running)\<close>.\<close>

fun accept_loop :: "nat \<Rightarrow> env \<Rightarrow> fd \<Rightarrow> state \<Rightarrow> state outcome" where
  "accept_loop 0 e server_fd s = (if running s then Fuel_out s else Done s)"
| "accept_loop (Suc k) e server_fd s =
     (if running s then
        (case (if client_fd s = -1 \<or> \<not> wait_mode s then accept_client e server_fd s
               else (Some Next, sleep e (wait_timeout s) s)) of
           (None, s1) \<Rightarrow> accept_loop k e server_fd s1
         | (Some Break, s1) \<Rightarrow> Done s1
         | (Some Next, s1) \<Rightarrow>
             (let s2 = find_device e s1
              in case handle s2 of
                   None \<Rightarrow>
                     accept_loop k e server_fd
                       (if \<not> wait_mode s2 then call e (Sys_close Main_fn (client_fd s2)) s2
                        else s2)
                 | Some h \<Rightarrow>
                     (let new = host_open_res e (clock s2);
                          s3 = (call e (Host_open (handle s2) False) s2)\<lparr>host := new\<rparr>
                      in if new = None then Exited 1 s3
                         else
                           (case run_main_loop k e s3 of
                              Done s4 \<Rightarrow>
                                accept_loop k e server_fd ((call e Host_close s4)\<lparr>handle := None\<rparr>)
                            | Exited x s4 \<Rightarrow> Exited x s4
                            | Crashed s4 \<Rightarrow> Crashed s4
                            | Fuel_out s4 \<Rightarrow> Fuel_out s4))))
      else Done s)"

text \<open>\<open>printf\<close>'s \<open>%d\<close>: an \<open>int\<close> in decimal.\<close>

fun decimal_nat :: "nat \<Rightarrow> string" where
  "decimal_nat n =
     (if n < 10 then [''0123456789'' ! n]
      else decimal_nat (n div 10) @ [''0123456789'' ! (n mod 10)])"

declare decimal_nat.simps [simp del]

definition decimal :: "int \<Rightarrow> string" where
  "decimal i = (if i < 0 then CHR ''-'' # decimal_nat (nat (- i)) else decimal_nat (nat i))"

text \<open>
  Lines 409-447: signal handlers, libusb, the listening socket.  \<open>htons\<close> takes a
  \<open>uint16_t\<close>: the port bound is the \<open>int\<close> cut to 16 bits.  The text of
  \<open>strerror\<close> belongs to the C library and is the environment's.
\<close>

definition start_server :: "env \<Rightarrow> int \<Rightarrow> state \<Rightarrow> (fd \<times> state) outcome" where
  "start_server e port s =
     (let s1 = call e Sys_sigaction (call e Sys_sigaction
                 (call e Sys_sigaction (call e Sys_sigaction s)));
          (rc, s2) = libusb_init e s1
      in if rc \<noteq> 0 then Exited 1 (call e (Sys_print Stderr ''Could not init libusb\<newline>'') s2)
         else
           (let s3 = libusb_set_debug e s2;
                server_fd = socket_res e (clock s3);
                s4 = call e Sys_socket s3
            in if server_fd = -1
               then Exited 1 (call e (Sys_perror ''Error creating ipv6 socket'') s4)
               else
                 (let r5 = setsockopt_res e (clock s4);
                      s5 = call e (Sys_setsockopt server_fd) s4
                  in if r5 \<noteq> 0
                     then Exited 1 (call e (Sys_perror ''Error setsockopt(SO_REUSEADDR) failed'') s5)
                     else
                       (let (r6, er) = bind_res e (clock s5);
                            s6 = call e (Sys_bind server_fd (word_of_int port)) s5
                        in if r6 \<noteq> 0
                           then Exited 1
                                  (call e (Sys_print Stderr
                                     (''Error binding port '' @ decimal port @ '': ''
                                        @ strerror_res e er @ ''\<newline>'')) s6)
                           else
                             (let r7 = listen_res e (clock s6);
                                  s7 = call e (Sys_listen server_fd) s6
                              in if r7 \<noteq> 0
                                 then Exited 1 (call e (Sys_perror ''Error listening'') s7)
                                 else Done (server_fd, s7))))))"

text \<open>\<open>main\<close>, lines 334-496.  \<open>opts\<close> is what \<open>getopt_long\<close> returns call by call, \<open>args\<close>
  the arguments it leaves.\<close>

definition main ::
  "nat \<Rightarrow> env \<Rightarrow> string \<Rightarrow> (char \<times> string) list \<Rightarrow> string list \<Rightarrow> state outcome" where
  "main k e argv0 opts args =
     (case parse_options e argv0 opts 4000 initial_state of
        Done (port, s1) \<Rightarrow>
          (case parse_arguments e argv0 args s1 of
             Done s2 \<Rightarrow>
               (case start_server e port s2 of
                  Done (server_fd, s3) \<Rightarrow>
                    (case accept_loop k e server_fd s3 of
                       Done s4 \<Rightarrow>
                         Exited 0 (libusb_exit e (call e (Sys_close Main_fn server_fd) s4))
                     | Exited x s' \<Rightarrow> Exited x s'
                     | Crashed s' \<Rightarrow> Crashed s'
                     | Fuel_out s' \<Rightarrow> Fuel_out s')
                | Exited x s' \<Rightarrow> Exited x s'
                | Crashed s' \<Rightarrow> Crashed s'
                | Fuel_out s' \<Rightarrow> Fuel_out s')
           | Exited x s' \<Rightarrow> Exited x s'
           | Crashed s' \<Rightarrow> Crashed s'
           | Fuel_out s' \<Rightarrow> Fuel_out s')
      | Exited x s' \<Rightarrow> Exited x s'
      | Crashed s' \<Rightarrow> Crashed s'
      | Fuel_out s' \<Rightarrow> Fuel_out s')"


section \<open>Notions used in the statements\<close>

text \<open>The three kinds of work of an iteration that the order of dispatch is about: the
  inbound pump, the outbound pump, the servicing of libusb's events.\<close>

fun phase :: "event \<Rightarrow> nat option" where
  "phase Host_read_guest_data = Some 0"
| "phase Host_write_guest_data = Some 1"
| "phase Usb_handle_events_timeout = Some 2"
| "phase ev = None"

definition pump_ordered :: "event list \<Rightarrow> bool" where
  "pump_ordered evs = sorted (List.map_filter phase evs)"

text \<open>The events of an iteration up to the entry into the reconnection block.\<close>

definition before_reconnect :: "event list \<Rightarrow> event list" where
  "before_reconnect evs = takeWhile (\<lambda>ev. ev \<noteq> Enter_reconnecting) evs"

text \<open>The invariant of an iteration before the reconnection block: the block has not
  been entered, the calls so far are in order, and none is of a later kind than \<open>p\<close>.\<close>

definition front_inv :: "nat \<Rightarrow> state \<Rightarrow> state \<Rightarrow> bool" where
  "front_inv p s0 s =
     (\<exists>evs. trace s = trace s0 @ evs \<and> list_all (\<lambda>ev. ev \<noteq> Enter_reconnecting) evs
        \<and> sorted (List.map_filter phase evs)
        \<and> list_all (\<lambda>x. x \<le> p) (List.map_filter phase evs))"

text \<open>The environment without termination signals, and the change of an outcome's
  result and state.\<close>

definition no_signals :: "env \<Rightarrow> env" where
  "no_signals e = e\<lparr>sig_delivered := (\<lambda>t. False)\<rparr>"

fun map_outcome :: "('a \<Rightarrow> 'b) \<Rightarrow> (state \<Rightarrow> state) \<Rightarrow> 'a outcome \<Rightarrow> 'b outcome" where
  "map_outcome f g (Done x) = Done (f x)"
| "map_outcome f g (Exited c s) = Exited c (g s)"
| "map_outcome f g (Crashed s) = Crashed (g s)"
| "map_outcome f g (Fuel_out s) = Fuel_out (g s)"

text \<open>
  The forms of a device identifier in the spec's words: \<open>BUS-ADDRESS\<close> (decimal) or
  \<open>VENDOR:PRODUCT\<close> (hexadecimal).  A field is a non-empty string of digits of the base,
  and \<open>number\<close> is the value it denotes.
\<close>

definition digits :: "nat \<Rightarrow> string \<Rightarrow> bool" where
  "digits base ds = (ds \<noteq> [] \<and> list_all (is_digit base) ds)"

definition number :: "nat \<Rightarrow> string \<Rightarrow> int" where
  "number base ds = foldl (\<lambda>acc c. acc * int base + int (the (digit_value c))) 0 ds"

text \<open>The value that an \<open>int\<close> variable of the program receives from a field: the
  number written, which \<open>strtol\<close> stops at \<open>LONG_MAX\<close>, cut to 32 bits by the
  assignment.\<close>

definition stored :: "nat \<Rightarrow> string \<Rightarrow> int" where
  "stored base ds = long_to_int (min LONG_MAX (number base ds))"

text \<open>The events that only write a message.\<close>

fun is_print :: "event \<Rightarrow> bool" where
  "is_print (Sys_print st m) = True"
| "is_print ev = False"

text \<open>How the parsing of the command line may end: with a result and nothing written,
  or with messages, the last of them the usage text, and the exit of the process.\<close>

definition parse_ok :: "event list \<Rightarrow> string \<Rightarrow> ('a \<Rightarrow> state) \<Rightarrow> 'a outcome \<Rightarrow> bool" where
  "parse_ok tr argv0 f out =
     (case out of
        Done x \<Rightarrow> trace (f x) = tr
      | Exited c t \<Rightarrow>
          (\<exists>ms. trace t = tr @ ms \<and> list_all is_print ms \<and> ms \<noteq> []
             \<and> last ms = Sys_print (if c \<noteq> 0 then Stderr else Stdout) (usage_text argv0))
      | Crashed t \<Rightarrow> False
      | Fuel_out t \<Rightarrow> False)"

section \<open>Concrete environments and states\<close>

text \<open>An environment in which nothing happens: no signal, no descriptor ready, every
  library call succeeds, no device is attached.\<close>

definition quiet_env :: env where
  "quiet_env =
     \<lparr>sig_delivered = (\<lambda>t. False), has_data_to_write_res = (\<lambda>t. 0),
      get_pollfds_res = (\<lambda>t. []), get_next_timeout_res = (\<lambda>t. 0),
      select_res = (\<lambda>t. Sel_ready [] []), read_guest_data_res = (\<lambda>t. ([], None, 0)),
      write_guest_data_res = (\<lambda>t. ([], 0)), is_disconnected_res = (\<lambda>t. 0),
      get_configuration_res = (\<lambda>t. 0), libusb_init_res = (\<lambda>t. (0, 1)),
      open_vid_pid_res = (\<lambda>t. None), get_device_list_res = (\<lambda>t. Dev_list []),
      libusb_open_res = (\<lambda>t. (0, 1)),
      host_open_res = (\<lambda>t. Some \<lparr>host_id = t, peer_caps = []\<rparr>),
      socket_res = (\<lambda>t. 3), setsockopt_res = (\<lambda>t. 0), bind_res = (\<lambda>t. (0, 0)),
      strerror_res = (\<lambda>er. ''Unknown error''), listen_res = (\<lambda>t. 0),
      accept_res = (\<lambda>t. (5, 0)), fcntl_res = (\<lambda>t. 0)\<rparr>"

text \<open>A session in wait-mode: client on descriptor 5, device \<open>1234:abcd\<close> open, the
  peer's capabilities negotiated.\<close>

definition session_state :: state where
  "session_state =
     initial_state\<lparr>client_fd := 5, wait_mode := True, usbvendor := 0x1234,
       usbproduct := 0xabcd, handle := Some 7,
       host := Some \<lparr>host_id = 0, peer_caps = [5]\<rparr>\<rparr>"

text \<open>The device has been unplugged and \<open>libusb_init\<close> fails.\<close>

definition init_fail_env :: env where
  "init_fail_env = quiet_env\<lparr>libusb_init_res := (\<lambda>t. (-1, 0))\<rparr>"

text \<open>The device does not answer the liveness probe, and is found again at once.\<close>

definition replug_env :: env where
  "replug_env =
     quiet_env\<lparr>get_configuration_res := (\<lambda>t. -4), open_vid_pid_res := (\<lambda>t. Some 9)\<rparr>"


text \<open>The client is readable and the inbound pump reports an error, although the
  peer is still there (the read returned ten bytes).\<close>

definition pump_error_env :: env where
  "pump_error_env =
     quiet_env\<lparr>select_res := (\<lambda>t. Sel_ready [5] []),
       read_guest_data_res := (\<lambda>t. ([Call_read (Io_done 10)], None, -1))\<rparr>"

text \<open>Outbound data is pending, the client is readable and writable, and the read
  returns end-of-file.\<close>

definition close_pending_env :: env where
  "close_pending_env =
     quiet_env\<lparr>has_data_to_write_res := (\<lambda>t. 1), select_res := (\<lambda>t. Sel_ready [5] [5]),
       read_guest_data_res := (\<lambda>t. ([Call_read (Io_done 0)], None, 0))\<rparr>"

text \<open>As \<open>replug_env\<close>, with a termination signal delivered during every call.\<close>

definition signal_env :: env where
  "signal_env = replug_env\<lparr>sig_delivered := (\<lambda>t. True)\<rparr>"

text \<open>The device \<open>1234:abcd\<close> is there when the client connects, then stops answering
  the liveness probe, and libusb cannot be initialised a second time.\<close>

definition unplug_env :: env where
  "unplug_env =
     quiet_env\<lparr>get_configuration_res := (\<lambda>t. -4), open_vid_pid_res := (\<lambda>t. Some 7),
       libusb_init_res := (\<lambda>t. if t < 6 then (0, 1) else (-1, 0))\<rparr>"

text \<open>A session in wait-mode on the device at bus 1 address 4, which is no longer
  attached.\<close>

definition bus_session_state :: state where
  "bus_session_state =
     initial_state\<lparr>client_fd := 5, wait_mode := True, usbbus := 1, usbaddr := 4,
       handle := Some 7, host := Some \<lparr>host_id = 0, peer_caps = [5]\<rparr>\<rparr>"

text \<open>Everything is ready at once: the client is readable and writable, outbound data
  is pending, and a descriptor of libusb is readable.\<close>

definition busy_env :: env where
  "busy_env =
     quiet_env\<lparr>has_data_to_write_res := (\<lambda>t. 1),
       get_pollfds_res := (\<lambda>t. [\<lparr>pfd = 7, pollin = True, pollout = False\<rparr>]),
       select_res := (\<lambda>t. Sel_ready [5, 7] [5]),
       read_guest_data_res := (\<lambda>t. ([Call_read (Io_done 10)], None, 0)),
       write_guest_data_res := (\<lambda>t. ([Call_write (Io_done 10)], 0))\<rparr>"

text \<open>The port is taken: \<open>bind\<close> fails with \<open>EADDRINUSE\<close>.\<close>

definition port_taken_env :: env where
  "port_taken_env =
     quiet_env\<lparr>bind_res := (\<lambda>t. (-1, 98)),
       strerror_res := (\<lambda>er. if er = 98 then ''Address already in use'' else ''Unknown error'')\<rparr>"

text \<open>Two devices are attached, at bus 1 address 2 and at bus 1 address 4.\<close>

definition two_devices_env :: env where
  "two_devices_env =
     quiet_env\<lparr>get_device_list_res :=
       (\<lambda>t. Dev_list [\<lparr>bus_number = 1, device_address = 2\<rparr>,
                       \<lparr>bus_number = 1, device_address = 4\<rparr>])\<rparr>"

section \<open>Basic facts about calls\<close>

lemma call_fields [simp]:
  "verbose (call e ev s) = verbose s"
  "client_fd (call e ev s) = client_fd s"
  "wait_mode (call e ev s) = wait_mode s"
  "wait_timeout (call e ev s) = wait_timeout s"
  "ctx (call e ev s) = ctx s"
  "host (call e ev s) = host s"
  "usbvendor (call e ev s) = usbvendor s"
  "usbproduct (call e ev s) = usbproduct s"
  "usbbus (call e ev s) = usbbus s"
  "usbaddr (call e ev s) = usbaddr s"
  "handle (call e ev s) = handle s"
  "clock (call e ev s) = Suc (clock s)"
  "trace (call e ev s) = trace s @ [ev]"
  "running (call e ev s) = (running s \<and> \<not> sig_delivered e (clock s))"
  by (simp_all add: call_def quit_handler_def Let_def)

lemma label_fields [simp]:
  "verbose (label ev s) = verbose s"
  "ctx (label ev s) = ctx s"
  "usbproduct (label ev s) = usbproduct s"
  "usbbus (label ev s) = usbbus s"
  "usbaddr (label ev s) = usbaddr s"
  "client_fd (label ev s) = client_fd s"
  "wait_mode (label ev s) = wait_mode s"
  "wait_timeout (label ev s) = wait_timeout s"
  "host (label ev s) = host s"
  "handle (label ev s) = handle s"
  "usbvendor (label ev s) = usbvendor s"
  "clock (label ev s) = clock s"
  "trace (label ev s) = trace s @ [ev]"
  "running (label ev s) = running s"
  by (simp_all add: label_def)

lemmas wrapper_defs =
  usbredirhost_has_data_to_write_def usbredirhost_is_disconnected_def
  usbredirhost_disconnect_def libusb_get_pollfds_def libusb_get_next_timeout_def
  libusb_handle_events_timeout_def libusb_get_configuration_def libusb_exit_def
  libusb_init_def libusb_set_debug_def sleep_def select_def

lemmas fixture_defs =
  quiet_env_def session_state_def initial_state_def init_fail_env_def replug_env_def
  pump_error_env_def close_pending_env_def signal_env_def
  two_devices_env_def unplug_env_def bus_session_state_def busy_env_def

lemma callback_fields [simp]:
  "wait_mode (snd (usbredirserver_read e a s)) = wait_mode s"
  "wait_timeout (snd (usbredirserver_read e a s)) = wait_timeout s"
  "host (snd (usbredirserver_read e a s)) = host s"
  "handle (snd (usbredirserver_read e a s)) = handle s"
  "usbvendor (snd (usbredirserver_read e a s)) = usbvendor s"
  "wait_mode (snd (usbredirserver_write e a s)) = wait_mode s"
  "wait_timeout (snd (usbredirserver_write e a s)) = wait_timeout s"
  "host (snd (usbredirserver_write e a s)) = host s"
  "handle (snd (usbredirserver_write e a s)) = handle s"
  "usbvendor (snd (usbredirserver_write e a s)) = usbvendor s"
  by (simp_all add: usbredirserver_read_def usbredirserver_write_def Let_def)

lemma run_callbacks_fields [simp]:
  "wait_mode (run_callbacks e cbs s) = wait_mode s"
  "wait_timeout (run_callbacks e cbs s) = wait_timeout s"
  "host (run_callbacks e cbs s) = host s"
  "handle (run_callbacks e cbs s) = handle s"
  "usbvendor (run_callbacks e cbs s) = usbvendor s"
  by (induction e cbs s rule: run_callbacks.induct) simp_all

lemma write_guest_data_fields [simp]:
  "wait_mode (snd (usbredirhost_write_guest_data e s)) = wait_mode s"
  "wait_timeout (snd (usbredirhost_write_guest_data e s)) = wait_timeout s"
  "host (snd (usbredirhost_write_guest_data e s)) = host s"
  "handle (snd (usbredirhost_write_guest_data e s)) = handle s"
  "usbvendor (snd (usbredirhost_write_guest_data e s)) = usbvendor s"
  by (simp_all add: usbredirhost_write_guest_data_def split: prod.splits)

lemma read_guest_data_fields [simp]:
  "wait_mode (snd (usbredirhost_read_guest_data e s)) = wait_mode s"
  "wait_timeout (snd (usbredirhost_read_guest_data e s)) = wait_timeout s"
  "handle (snd (usbredirhost_read_guest_data e s)) = handle s"
  "usbvendor (snd (usbredirhost_read_guest_data e s)) = usbvendor s"
  by (simp_all add: usbredirhost_read_guest_data_def set_peer_caps_def
      split: prod.splits option.splits)

lemma find_device_fields [simp]:
  "client_fd (find_device e s) = client_fd s"
  "wait_mode (find_device e s) = wait_mode s"
  "wait_timeout (find_device e s) = wait_timeout s"
  "host (find_device e s) = host s"
  "usbvendor (find_device e s) = usbvendor s"
  by (simp_all add: find_device_def libusb_open_def Let_def split: option.splits prod.splits)

section \<open>The invariant of the event loop\<close>

lemma quiet_after_close_append:
  "quiet_after_close (xs @ ys) =
     (quiet_after_close xs \<and> quiet_after_close ys
      \<and> (list_ex peer_close xs \<longrightarrow> list_all (\<lambda>x. \<not> forbidden_after_close x) ys))"
  by (induction xs) auto

lemma loop_inv_refl [simp]: "loop_inv s s"
  by (simp add: loop_inv_def)

lemma loop_inv_call:
  assumes "loop_inv s0 s" and "\<not> engine_close ev" and "\<not> peer_close ev"
    and "forbidden_after_close ev \<Longrightarrow> client_fd s \<noteq> -1"
  shows "loop_inv s0 (call e ev s)"
proof -
  from assms(1) obtain evs where evs: "trace s = trace s0 @ evs" "quiet_after_close evs"
    "list_all (\<lambda>ev. \<not> engine_close ev) evs"
    "if list_ex peer_close evs then client_fd s = -1 else client_fd s = client_fd s0"
    by (auto simp: loop_inv_def)
  have "forbidden_after_close ev \<Longrightarrow> \<not> list_ex peer_close evs"
    using assms(4) evs(4) by (auto split: if_splits)
  then have "quiet_after_close (evs @ [ev])"
    using evs(2) by (auto simp: quiet_after_close_append)
  then show ?thesis
    using evs assms(2,3) unfolding loop_inv_def
    by (intro exI [of _ "evs @ [ev]"]) (auto split: if_splits)
qed

lemma loop_inv_cong:
  "trace s' = trace s \<Longrightarrow> client_fd s' = client_fd s \<Longrightarrow> loop_inv s0 s' = loop_inv s0 s"
  by (simp add: loop_inv_def)

lemma loop_inv_label:
  assumes "loop_inv s0 s" and "\<not> engine_close ev" and "\<not> peer_close ev"
    and "forbidden_after_close ev \<Longrightarrow> client_fd s \<noteq> -1"
  shows "loop_inv s0 (label ev s)"
proof -
  have "loop_inv s0 (call undefined ev s)"
    using assms by (rule loop_inv_call)
  moreover have "loop_inv s0 (label ev s) = loop_inv s0 (call undefined ev s)"
    by (rule loop_inv_cong) simp_all
  ultimately show ?thesis by simp
qed

lemma loop_inv_close:
  assumes "loop_inv s0 s" and "peer_close ev" and "client_fd s \<noteq> -1"
  shows "loop_inv s0 ((call e ev s)\<lparr>client_fd := -1\<rparr>)"
proof -
  from assms(1) obtain evs where evs: "trace s = trace s0 @ evs" "quiet_after_close evs"
    "list_all (\<lambda>ev. \<not> engine_close ev) evs"
    "if list_ex peer_close evs then client_fd s = -1 else client_fd s = client_fd s0"
    by (auto simp: loop_inv_def)
  have "\<not> engine_close ev"
    using assms(2) by (cases ev rule: peer_close.cases) auto
  moreover have "\<not> list_ex peer_close evs"
    using evs(4) assms(3) by (auto split: if_splits)
  ultimately show ?thesis
    using evs assms(2) unfolding loop_inv_def
    by (intro exI [of _ "evs @ [ev]"]) (auto simp: quiet_after_close_append)
qed

lemma loop_inv_updates [simp]:
  "loop_inv s0 (s\<lparr>handle := h\<rparr>) = loop_inv s0 s"
  "loop_inv s0 (s\<lparr>host := ho\<rparr>) = loop_inv s0 s"
  "loop_inv s0 (s\<lparr>ctx := c\<rparr>) = loop_inv s0 s"
  by (simp_all add: loop_inv_def)

lemma loop_inv_read_cb:
  "loop_inv s0 s \<Longrightarrow> loop_inv s0 (snd (usbredirserver_read e a s))"
  by (auto simp: usbredirserver_read_def os_io_def Let_def intro!: loop_inv_call loop_inv_close)

lemma loop_inv_write_cb:
  "loop_inv s0 s \<Longrightarrow> loop_inv s0 (snd (usbredirserver_write e a s))"
  by (auto simp: usbredirserver_write_def os_io_def EBADF_def EPIPE_def Let_def
        intro!: loop_inv_call loop_inv_close)

lemma loop_inv_run_callbacks:
  "loop_inv s0 s \<Longrightarrow> loop_inv s0 (run_callbacks e cbs s)"
  by (induction e cbs s rule: run_callbacks.induct)
     (auto intro: loop_inv_read_cb loop_inv_write_cb)

lemma loop_inv_read_guest_data:
  "loop_inv s0 s \<Longrightarrow> loop_inv s0 (snd (usbredirhost_read_guest_data e s))"
  by (auto simp: usbredirhost_read_guest_data_def set_peer_caps_def
        split: prod.splits option.splits intro!: loop_inv_run_callbacks loop_inv_call)

lemma loop_inv_write_guest_data:
  "loop_inv s0 s \<Longrightarrow> client_fd s \<noteq> -1 \<Longrightarrow> loop_inv s0 (snd (usbredirhost_write_guest_data e s))"
  by (auto simp: usbredirhost_write_guest_data_def
        split: prod.splits intro!: loop_inv_run_callbacks loop_inv_call)

lemma loop_inv_find_device:
  "loop_inv s0 s \<Longrightarrow> loop_inv s0 (find_device e s)"
  by (auto simp: find_device_def libusb_open_def Let_def
        split: prod.splits option.splits intro!: loop_inv_call)


lemma loop_inv_reopen:
  assumes "loop_inv s0 s" and "client_fd s \<noteq> -1"
  shows "loop_inv s0 (final (reopen e s))"
    and "is_done (reopen e s) \<or> client_fd (final (reopen e s)) \<noteq> -1"
  using assms
  by (auto simp: reopen_def Let_def split: option.splits
        intro!: loop_inv_write_guest_data loop_inv_call)

lemma loop_inv_retry_loop:
  "loop_inv s0 s \<Longrightarrow>
     loop_inv s0 (final (retry_loop k e s))
     \<and> (is_done (retry_loop k e s) \<or> client_fd (final (retry_loop k e s)) \<noteq> -1)"
proof (induction k arbitrary: s)
  case 0
  then show ?case by simp
next
  case (Suc k)
  show ?case
  proof (cases "client_fd s = -1")
    case True
    with Suc.prems show ?thesis by simp
  next
    case False
    let ?s2 = "snd (libusb_init e (libusb_exit e s))"
    let ?s4 = "find_device e (libusb_set_debug e ?s2)"
    have inv2: "loop_inv s0 ?s2" and fd2: "client_fd ?s2 \<noteq> -1"
      using Suc.prems False
      by (auto simp: libusb_init_def libusb_exit_def split: prod.splits intro!: loop_inv_call)
    have inv4: "loop_inv s0 ?s4" and fd4: "client_fd ?s4 \<noteq> -1"
      using inv2 fd2
      by (auto simp: libusb_set_debug_def intro!: loop_inv_find_device loop_inv_call)
    show ?thesis
    proof (cases "fst (libusb_init e (libusb_exit e s)) = 0")
      case rc: False
      then show ?thesis
        using False inv2 fd2 by (auto simp: split_beta intro!: loop_inv_call)
    next
      case rc: True
      show ?thesis
      proof (cases "handle ?s4")
        case None
        have "loop_inv s0 (sleep e (wait_timeout ?s4) ?s4)"
          using inv4 by (auto simp: sleep_def intro!: loop_inv_call)
        from Suc.IH [OF this] show ?thesis
          using False rc None by (simp add: Let_def split_beta)
      next
        case (Some h)
        from loop_inv_reopen [OF inv4 fd4, of e] show ?thesis
          using False rc Some by (simp add: Let_def split_beta)
      qed
    qed
  qed
qed

lemma loop_inv_reconnect:
  assumes "loop_inv s0 s" and "client_fd s \<noteq> -1"
  shows "loop_inv s0 (final (reconnect k e s))"
    and "is_done (reconnect k e s) \<or> client_fd (final (reconnect k e s)) \<noteq> -1"
proof -
  let ?s3 = "snd (usbredirhost_read_guest_data e
               (sleep e (wait_timeout (snd (usbredirhost_write_guest_data e (label Enter_reconnecting s))))
                 (snd (usbredirhost_write_guest_data e (label Enter_reconnecting s)))))"
  have "loop_inv s0 ?s3"
    using assms
    by (auto simp: sleep_def intro!: loop_inv_read_guest_data loop_inv_call
          loop_inv_write_guest_data loop_inv_label)
  from loop_inv_retry_loop [OF this, of k e]
  show "loop_inv s0 (final (reconnect k e s))"
    and "is_done (reconnect k e s) \<or> client_fd (final (reconnect k e s)) \<noteq> -1"
    by (simp_all add: reconnect_def Let_def)
qed

lemma probe_client_fd [simp]: "client_fd (snd (probe e n d s)) = client_fd s"
  by (simp add: probe_def wrapper_defs split: prod.splits)

lemma loop_inv_probe:
  "loop_inv s0 s \<Longrightarrow> loop_inv s0 (snd (probe e n d s))"
  by (auto simp: probe_def wrapper_defs split: prod.splits intro!: loop_inv_call)

lemma loop_inv_wait_mode_eval:
  assumes "loop_inv s0 s"
  shows "loop_inv s0 (end_state snd (wait_mode_eval k e n w s))"
    and "is_done (wait_mode_eval k e n w s)
         \<or> client_fd (end_state snd (wait_mode_eval k e n w s)) \<noteq> -1"
proof -
  let ?s1 = "snd (usbredirhost_is_disconnected e s)"
  let ?d = "fst (usbredirhost_is_disconnected e s)"
  let ?s2 = "snd (probe e n ?d ?s1)"
  have inv1: "loop_inv s0 ?s1"
    using assms by (auto simp: wrapper_defs intro!: loop_inv_call)
  then have inv2: "loop_inv s0 ?s2"
    by (rule loop_inv_probe)
  have rc: "client_fd ?s1 \<noteq> -1 \<Longrightarrow>
      loop_inv s0 (final (reconnect k e ?s2))
      \<and> (is_done (reconnect k e ?s2) \<or> client_fd (final (reconnect k e ?s2)) \<noteq> -1)"
    using loop_inv_reconnect [OF inv2, of k e] by simp
  show "loop_inv s0 (end_state snd (wait_mode_eval k e n w s))"
    using assms inv1 inv2 rc
    by (auto simp: wait_mode_eval_def Let_def split_beta split: outcome.splits)
  show "is_done (wait_mode_eval k e n w s)
         \<or> client_fd (end_state snd (wait_mode_eval k e n w s)) \<noteq> -1"
    using rc
    by (auto simp: wait_mode_eval_def Let_def split_beta split: outcome.splits)
qed


lemma wait_for_events_client_fd [simp]:
  "client_fd (snd (snd (wait_for_events e s))) = client_fd s"
  by (simp add: wait_for_events_def wrapper_defs Let_def split_beta)

lemma loop_inv_wait_for_events:
  "loop_inv s0 s \<Longrightarrow> loop_inv s0 (snd (snd (wait_for_events e s)))"
  by (auto simp: wait_for_events_def wrapper_defs Let_def split_beta intro!: loop_inv_call)

lemma loop_inv_dispatch:
  "loop_inv s0 s \<Longrightarrow> loop_inv s0 (snd (dispatch e pollfds readfds writefds s))"
  by (auto simp: dispatch_def Let_def split_beta libusb_handle_events_timeout_def
        intro!: loop_inv_call loop_inv_read_guest_data loop_inv_write_guest_data)

lemma loop_inv_iteration:
  assumes "loop_inv s0 s"
  shows "loop_inv s0 (end_state (\<lambda>r. snd (snd r)) (iteration k e w s))
         \<and> (is_done (iteration k e w s)
              \<or> client_fd (end_state (\<lambda>r. snd (snd r)) (iteration k e w s)) \<noteq> -1)"
proof -
  obtain pollfds ans s1 where wfe: "wait_for_events e s = (pollfds, ans, s1)"
    by (cases "wait_for_events e s") auto
  have inv1: "loop_inv s0 s1"
    using loop_inv_wait_for_events [OF assms, of e] wfe by simp
  show ?thesis
  proof (cases ans)
    case (Sel_failed er)
    then show ?thesis
      using inv1 wfe by (auto simp: iteration_def intro!: loop_inv_call)
  next
    case (Sel_ready rd wr)
    let ?n = "ready_count rd wr"
    let ?s2 = "if ?n = 0 then libusb_handle_events_timeout e s1 else s1"
    have inv2: "loop_inv s0 ?s2"
      using inv1 by (auto simp: libusb_handle_events_timeout_def intro!: loop_inv_call)
    obtain c s3 where disp: "dispatch e pollfds rd wr ?s2 = (c, s3)"
      by force
    have inv3: "loop_inv s0 s3"
      using loop_inv_dispatch [OF inv2, of e pollfds rd wr] disp by simp
    note wm = loop_inv_wait_mode_eval [OF inv3, of k e ?n w]
    show ?thesis
    proof (cases "?n = 0 \<and> \<not> wait_mode ?s2")
      case True
      then have n0: "?n = 0" and nw: "\<not> wait_mode (libusb_handle_events_timeout e s1)"
        by (simp_all split: if_splits)
      have "iteration k e w s = Done (Next, w, libusb_handle_events_timeout e s1)"
        using wfe Sel_ready n0 nw by (simp add: iteration_def Let_def)
      then show ?thesis
        using inv2 True by simp
    next
      case False
      then have it: "iteration k e w s =
          (case c of
             Break \<Rightarrow> Done (Break, w, s3)
           | Next \<Rightarrow>
               (case wait_mode_eval k e ?n w s3 of
                  Done (w', s4) \<Rightarrow> Done (Next, w', s4)
                | Exited x s4 \<Rightarrow> Exited x s4
                | Crashed s4 \<Rightarrow> Crashed s4
                | Fuel_out s4 \<Rightarrow> Fuel_out s4))"
        using wfe Sel_ready disp by (simp add: iteration_def Let_def)
      show ?thesis
        unfolding it using inv3 wm
        by (cases c; cases "wait_mode_eval k e ?n w s3") auto
    qed
  qed
qed

lemma loop_inv_main_loop:
  "loop_inv s0 s \<Longrightarrow>
     loop_inv s0 (final (main_loop k e w s))
     \<and> (is_done (main_loop k e w s) \<or> client_fd (final (main_loop k e w s)) \<noteq> -1)"
proof (induction k arbitrary: w s)
  case 0
  then show ?case by simp
next
  case (Suc k)
  show ?case
  proof (cases "running s \<and> client_fd s \<noteq> -1")
    case False
    with Suc.prems show ?thesis by auto
  next
    case True
    note it = loop_inv_iteration [OF Suc.prems, of k e w]
    show ?thesis
    proof (cases "iteration k e w s")
      case (Done r)
      obtain c w' s' where r: "r = (c, w', s')" by (cases r) auto
      have "loop_inv s0 s'" using it Done r by simp
      from Suc.IH [OF this, of w'] show ?thesis
        using True Done r it by (cases c) auto
    qed (use True it in auto)
  qed
qed

lemma loop_invD:
  assumes "loop_inv s0 s"
  shows "trace s = trace s0 @ emitted s0 s"
    and "quiet_after_close (emitted s0 s)"
    and "list_all (\<lambda>ev. \<not> engine_close ev) (emitted s0 s)"
    and "if list_ex peer_close (emitted s0 s) then client_fd s = -1 else client_fd s = client_fd s0"
  using assms by (auto simp: loop_inv_def emitted_def)

lemma emitted_eq: "trace s' = trace s @ evs \<Longrightarrow> emitted s s' = evs"
  by (simp add: emitted_def)

lemma reconnect_trace:
  assumes "client_fd s \<noteq> -1"
  shows "\<exists>rest. trace (final (reconnect k e s)) = trace s @ Enter_reconnecting # rest"
proof -
  have "loop_inv (label Enter_reconnecting s) (label Enter_reconnecting s)"
    by simp
  then have "loop_inv (label Enter_reconnecting s)
      (snd (usbredirhost_read_guest_data e
         (sleep e (wait_timeout (snd (usbredirhost_write_guest_data e (label Enter_reconnecting s))))
           (snd (usbredirhost_write_guest_data e (label Enter_reconnecting s))))))"
    using assms
    by (auto simp: sleep_def intro!: loop_inv_read_guest_data loop_inv_call
          loop_inv_write_guest_data)
  from loop_inv_retry_loop [OF this, of k e]
  have "loop_inv (label Enter_reconnecting s) (final (reconnect k e s))"
    by (simp add: reconnect_def Let_def)
  then show ?thesis
    by (auto simp: loop_inv_def)
qed

section \<open>The invariant of the dispatch order\<close>

lemma map_filter_append: "List.map_filter f (xs @ ys) = List.map_filter f xs @ List.map_filter f ys"
  by (simp add: List.map_filter_def)

lemma front_inv_refl [simp]: "front_inv p s s"
  by (simp add: front_inv_def List.map_filter_def)

lemma front_inv_mono: "front_inv p s0 s \<Longrightarrow> p \<le> q \<Longrightarrow> front_inv q s0 s"
  unfolding front_inv_def list_all_iff by (meson order_trans)

lemma front_inv_call:
  assumes "front_inv p s0 s" and "ev \<noteq> Enter_reconnecting"
    and "case phase ev of None \<Rightarrow> p \<le> q | Some x \<Rightarrow> p \<le> x \<and> x \<le> q"
  shows "front_inv q s0 (call e ev s)"
proof -
  from assms(1) obtain evs where evs: "trace s = trace s0 @ evs"
    "list_all (\<lambda>ev. ev \<noteq> Enter_reconnecting) evs" "sorted (List.map_filter phase evs)"
    "list_all (\<lambda>x. x \<le> p) (List.map_filter phase evs)"
    by (auto simp: front_inv_def)
  show ?thesis
    unfolding front_inv_def
    using evs assms(2,3)
    by (intro exI [of _ "evs @ [ev]"])
       (auto simp: map_filter_append List.map_filter_simps sorted_append list_all_iff
          split: option.splits)
qed

lemma front_inv_call_other:
  "front_inv p s0 s \<Longrightarrow> phase ev = None \<Longrightarrow> ev \<noteq> Enter_reconnecting
     \<Longrightarrow> front_inv p s0 (call e ev s)"
  by (rule front_inv_call [where p = p]) simp_all

lemma front_inv_cong:
  "trace s' = trace s \<Longrightarrow> front_inv p s0 s' = front_inv p s0 s"
  by (simp add: front_inv_def)

lemma front_inv_updates [simp]:
  "front_inv p s0 (s\<lparr>client_fd := d\<rparr>) = front_inv p s0 s"
  "front_inv p s0 (s\<lparr>host := ho\<rparr>) = front_inv p s0 s"
  by (simp_all add: front_inv_def)

lemma front_inv_read_cb:
  "front_inv p s0 s \<Longrightarrow> front_inv p s0 (snd (usbredirserver_read e a s))"
  by (auto simp: usbredirserver_read_def Let_def intro!: front_inv_call)

lemma front_inv_write_cb:
  "front_inv p s0 s \<Longrightarrow> front_inv p s0 (snd (usbredirserver_write e a s))"
  by (auto simp: usbredirserver_write_def Let_def intro!: front_inv_call)

lemma front_inv_run_callbacks:
  "front_inv p s0 s \<Longrightarrow> front_inv p s0 (run_callbacks e cbs s)"
  by (induction e cbs s rule: run_callbacks.induct)
     (auto intro: front_inv_read_cb front_inv_write_cb)

lemma front_inv_read_guest_data:
  "front_inv 0 s0 s \<Longrightarrow> front_inv 0 s0 (snd (usbredirhost_read_guest_data e s))"
  by (auto simp: usbredirhost_read_guest_data_def set_peer_caps_def
        split: prod.splits option.splits intro!: front_inv_run_callbacks front_inv_call)

lemma front_inv_write_guest_data:
  "front_inv 0 s0 s \<Longrightarrow> front_inv (Suc 0) s0 (snd (usbredirhost_write_guest_data e s))"
  by (auto simp: usbredirhost_write_guest_data_def
        split: prod.splits intro!: front_inv_run_callbacks front_inv_call [where p = 0])

lemma front_inv_wait_for_events:
  "front_inv p s0 s \<Longrightarrow> front_inv p s0 (snd (snd (wait_for_events e s)))"
  by (auto simp: wait_for_events_def wrapper_defs Let_def split_beta intro!: front_inv_call)

lemma front_inv_dispatch:
  assumes "front_inv 0 s0 s"
  shows "front_inv 2 s0 (snd (dispatch e pollfds readfds writefds s))"
proof -
  let ?s1 = "if FD_ISSET (client_fd s) readfds then snd (usbredirhost_read_guest_data e s) else s"
  have i1: "front_inv 0 s0 ?s1"
    using assms by (auto intro: front_inv_read_guest_data)
  let ?s2 = "if FD_ISSET (client_fd ?s1) writefds
             then snd (usbredirhost_write_guest_data e ?s1) else ?s1"
  have i2: "front_inv (Suc 0) s0 ?s2"
    using i1 by (auto intro: front_inv_write_guest_data front_inv_mono)
  have i3: "front_inv 2 s0 (libusb_handle_events_timeout e ?s2)"
    using i2 by (auto simp: libusb_handle_events_timeout_def intro!: front_inv_call [where p = "Suc 0"])
  show ?thesis
    using i1 i2 i3
    by (auto simp: dispatch_def Let_def split_beta intro: front_inv_mono split: if_splits)
qed


lemma front_inv_ordered:
  assumes "front_inv p s0 s"
  shows "pump_ordered (before_reconnect (emitted s0 s))"
proof -
  from assms obtain evs where evs: "trace s = trace s0 @ evs"
    "list_all (\<lambda>ev. ev \<noteq> Enter_reconnecting) evs" "sorted (List.map_filter phase evs)"
    by (auto simp: front_inv_def)
  then have "before_reconnect (emitted s0 s) = evs"
    by (simp add: before_reconnect_def emitted_def list_all_iff)
  then show ?thesis
    using evs(3) by (simp add: pump_ordered_def)
qed

lemma front_inv_then_reconnect:
  assumes "front_inv p s0 s" and "trace s' = trace s @ Enter_reconnecting # rest"
  shows "pump_ordered (before_reconnect (emitted s0 s'))"
proof -
  from assms(1) obtain evs where evs: "trace s = trace s0 @ evs"
    "list_all (\<lambda>ev. ev \<noteq> Enter_reconnecting) evs" "sorted (List.map_filter phase evs)"
    by (auto simp: front_inv_def)
  then have "before_reconnect (emitted s0 s') = evs"
    using assms(2) by (simp add: before_reconnect_def emitted_def list_all_iff)
  then show ?thesis
    using evs(3) by (simp add: pump_ordered_def)
qed

lemma wait_mode_eval_ordered:
  assumes "front_inv p s0 s"
  shows "pump_ordered (before_reconnect (emitted s0 (end_state snd (wait_mode_eval k e n w s))))"
proof -
  let ?s1 = "snd (usbredirhost_is_disconnected e s)"
  let ?d = "fst (usbredirhost_is_disconnected e s)"
  let ?s2 = "snd (probe e n ?d ?s1)"
  have inv1: "front_inv p s0 ?s1"
    using assms by (auto simp: wrapper_defs intro!: front_inv_call_other)
  have inv2: "front_inv p s0 ?s2"
    using assms
    by (auto simp: probe_def wrapper_defs split_beta intro!: front_inv_call_other)
  have rc: "pump_ordered (before_reconnect (emitted s0 (final (reconnect k e ?s2))))"
    if "client_fd ?s1 \<noteq> -1"
  proof -
    from that have "client_fd ?s2 \<noteq> -1" by simp
    from reconnect_trace [OF this, of k e] obtain rest
      where "trace (final (reconnect k e ?s2)) = trace ?s2 @ Enter_reconnecting # rest" ..
    with inv2 show ?thesis by (rule front_inv_then_reconnect)
  qed
  have fin: "end_state snd (case reconnect k e ?s2 of
                 Done s3 \<Rightarrow> Done (0::int, s3)
               | Exited c s3 \<Rightarrow> Exited c s3
               | Crashed s3 \<Rightarrow> Crashed s3
               | Fuel_out s3 \<Rightarrow> Fuel_out s3) = final (reconnect k e ?s2)"
    by (cases "reconnect k e ?s2") simp_all
  show ?thesis
    using front_inv_ordered [OF assms] front_inv_ordered [OF inv1] front_inv_ordered [OF inv2] rc
    by (simp add: wait_mode_eval_def Let_def split_beta fin)
qed

section \<open>The termination flag is not read between the loop heads\<close>

lemma no_signals_fields [simp]:
  "sig_delivered (no_signals e) t = False"
  "has_data_to_write_res (no_signals e) = has_data_to_write_res e"
  "get_pollfds_res (no_signals e) = get_pollfds_res e"
  "get_next_timeout_res (no_signals e) = get_next_timeout_res e"
  "select_res (no_signals e) = select_res e"
  "read_guest_data_res (no_signals e) = read_guest_data_res e"
  "write_guest_data_res (no_signals e) = write_guest_data_res e"
  "is_disconnected_res (no_signals e) = is_disconnected_res e"
  "get_configuration_res (no_signals e) = get_configuration_res e"
  "libusb_init_res (no_signals e) = libusb_init_res e"
  "open_vid_pid_res (no_signals e) = open_vid_pid_res e"
  "get_device_list_res (no_signals e) = get_device_list_res e"
  "libusb_open_res (no_signals e) = libusb_open_res e"
  "host_open_res (no_signals e) = host_open_res e"
  by (simp_all add: no_signals_def)

lemma quit_handler_fields [simp]:
  "verbose (quit_handler s) = verbose s"
  "client_fd (quit_handler s) = client_fd s"
  "wait_mode (quit_handler s) = wait_mode s"
  "wait_timeout (quit_handler s) = wait_timeout s"
  "ctx (quit_handler s) = ctx s"
  "host (quit_handler s) = host s"
  "usbvendor (quit_handler s) = usbvendor s"
  "usbproduct (quit_handler s) = usbproduct s"
  "usbbus (quit_handler s) = usbbus s"
  "usbaddr (quit_handler s) = usbaddr s"
  "handle (quit_handler s) = handle s"
  "clock (quit_handler s) = clock s"
  "trace (quit_handler s) = trace s"
  "running (quit_handler s) = False"
  by (simp_all add: quit_handler_def)

lemma quit_handler_updates [simp]:
  "(quit_handler s)\<lparr>client_fd := d\<rparr> = quit_handler (s\<lparr>client_fd := d\<rparr>)"
  "(quit_handler s)\<lparr>host := ho\<rparr> = quit_handler (s\<lparr>host := ho\<rparr>)"
  "(quit_handler s)\<lparr>handle := h\<rparr> = quit_handler (s\<lparr>handle := h\<rparr>)"
  "(quit_handler s)\<lparr>ctx := c\<rparr> = quit_handler (s\<lparr>ctx := c\<rparr>)"
  by (simp_all add: quit_handler_def)

lemma quit_call [simp]:
  "call (no_signals e) ev (quit_handler s) = quit_handler (call e ev s)"
  by (simp add: call_def quit_handler_def Let_def)

lemma quit_label [simp]:
  "label ev (quit_handler s) = quit_handler (label ev s)"
  by (simp add: label_def quit_handler_def)

lemma quit_os_io [simp]: "os_io (quit_handler s) a = os_io s a"
  by (simp add: os_io_def)

lemma quit_read_cb [simp]:
  "usbredirserver_read (no_signals e) a (quit_handler s) =
     (fst (usbredirserver_read e a s), quit_handler (snd (usbredirserver_read e a s)))"
  by (simp add: usbredirserver_read_def Let_def)

lemma quit_write_cb [simp]:
  "usbredirserver_write (no_signals e) a (quit_handler s) =
     (fst (usbredirserver_write e a s), quit_handler (snd (usbredirserver_write e a s)))"
  by (simp add: usbredirserver_write_def Let_def)

lemma quit_run_callbacks [simp]:
  "run_callbacks (no_signals e) cbs (quit_handler s) = quit_handler (run_callbacks e cbs s)"
  by (induction e cbs s rule: run_callbacks.induct) simp_all

lemma quit_set_peer_caps [simp]:
  "set_peer_caps hello (quit_handler s) = quit_handler (set_peer_caps hello s)"
  by (simp add: set_peer_caps_def split: option.splits)

lemma quit_read_guest_data [simp]:
  "usbredirhost_read_guest_data (no_signals e) (quit_handler s) =
     (fst (usbredirhost_read_guest_data e s),
      quit_handler (snd (usbredirhost_read_guest_data e s)))"
  by (simp add: usbredirhost_read_guest_data_def split_beta)

lemma quit_write_guest_data [simp]:
  "usbredirhost_write_guest_data (no_signals e) (quit_handler s) =
     (fst (usbredirhost_write_guest_data e s),
      quit_handler (snd (usbredirhost_write_guest_data e s)))"
  by (simp add: usbredirhost_write_guest_data_def split_beta)

lemma quit_wrappers [simp]:
  "usbredirhost_has_data_to_write (no_signals e) (quit_handler s) =
     (fst (usbredirhost_has_data_to_write e s),
      quit_handler (snd (usbredirhost_has_data_to_write e s)))"
  "usbredirhost_is_disconnected (no_signals e) (quit_handler s) =
     (fst (usbredirhost_is_disconnected e s),
      quit_handler (snd (usbredirhost_is_disconnected e s)))"
  "usbredirhost_disconnect (no_signals e) (quit_handler s) =
     quit_handler (usbredirhost_disconnect e s)"
  "libusb_get_pollfds (no_signals e) (quit_handler s) =
     (fst (libusb_get_pollfds e s), quit_handler (snd (libusb_get_pollfds e s)))"
  "libusb_get_next_timeout (no_signals e) (quit_handler s) =
     (fst (libusb_get_next_timeout e s), quit_handler (snd (libusb_get_next_timeout e s)))"
  "libusb_handle_events_timeout (no_signals e) (quit_handler s) =
     quit_handler (libusb_handle_events_timeout e s)"
  "libusb_get_configuration (no_signals e) (quit_handler s) =
     (fst (libusb_get_configuration e s), quit_handler (snd (libusb_get_configuration e s)))"
  "libusb_exit (no_signals e) (quit_handler s) = quit_handler (libusb_exit e s)"
  "libusb_init (no_signals e) (quit_handler s) =
     (fst (libusb_init e s), quit_handler (snd (libusb_init e s)))"
  "libusb_set_debug (no_signals e) (quit_handler s) = quit_handler (libusb_set_debug e s)"
  "sleep (no_signals e) secs (quit_handler s) = quit_handler (sleep e secs s)"
  "select (no_signals e) nfds rd wr t (quit_handler s) =
     (fst (select e nfds rd wr t s), quit_handler (snd (select e nfds rd wr t s)))"
  by (simp_all add: wrapper_defs split_beta)

lemma quit_libusb_open [simp]:
  "libusb_open (no_signals e) d (quit_handler s) =
     (fst (libusb_open e d s), quit_handler (snd (libusb_open e d s)))"
  by (simp add: libusb_open_def split_beta)

lemma quit_find_device [simp]:
  "find_device (no_signals e) (quit_handler s) = quit_handler (find_device e s)"
  by (simp add: find_device_def Let_def split: option.splits)

lemma quit_reopen [simp]:
  "reopen (no_signals e) (quit_handler s) = map_outcome quit_handler quit_handler (reopen e s)"
  by (simp add: reopen_def Let_def split: option.splits)

lemma quit_retry_loop [simp]:
  "retry_loop k (no_signals e) (quit_handler s) =
     map_outcome quit_handler quit_handler (retry_loop k e s)"
  by (induction k arbitrary: s) (simp_all add: Let_def split_beta split: option.splits)

lemma quit_reconnect [simp]:
  "reconnect k (no_signals e) (quit_handler s) =
     map_outcome quit_handler quit_handler (reconnect k e s)"
  by (simp add: reconnect_def Let_def)

lemma quit_probe [simp]:
  "probe (no_signals e) n d (quit_handler s) =
     (fst (probe e n d s), quit_handler (snd (probe e n d s)))"
  by (simp add: probe_def split_beta)

lemma quit_wait_mode_eval [simp]:
  "wait_mode_eval k (no_signals e) n w (quit_handler s) =
     map_outcome (\<lambda>r. (fst r, quit_handler (snd r))) quit_handler (wait_mode_eval k e n w s)"
  by (simp add: wait_mode_eval_def Let_def split_beta split: outcome.splits)

lemma quit_wait_for_events [simp]:
  "wait_for_events (no_signals e) (quit_handler s) =
     (fst (wait_for_events e s), fst (snd (wait_for_events e s)),
      quit_handler (snd (snd (wait_for_events e s))))"
  by (simp add: wait_for_events_def Let_def split_beta)

lemma quit_dispatch [simp]:
  "dispatch (no_signals e) pollfds rd wr (quit_handler s) =
     (fst (dispatch e pollfds rd wr s), quit_handler (snd (dispatch e pollfds rd wr s)))"
  by (cases "FD_ISSET (client_fd s) rd";
      cases "FD_ISSET (client_fd (snd (usbredirhost_read_guest_data e s))) wr";
      cases "FD_ISSET (client_fd s) wr")
     (simp_all add: dispatch_def Let_def split_beta)


lemma reopen_handle:
  "reopen e s = Done t \<Longrightarrow> handle t = handle s"
  by (auto simp: reopen_def Let_def split: option.splits)



section \<open>Parsing numbers and device identifiers\<close>

lemma long_to_int_id:
  "- (2 ^ 31) \<le> v \<Longrightarrow> v < 2 ^ 31 \<Longrightarrow> long_to_int v = v"
  by (simp add: long_to_int_def sint_sbintrunc' signed_take_bit_int_eq_self)

lemma parse_digits_digits:
  "list_all (is_digit base) ds \<Longrightarrow> \<not> is_digit base (deref rest) \<Longrightarrow>
     parse_digits base acc (ds @ rest) =
       (foldl (\<lambda>acc c. acc * int base + int (the (digit_value c))) acc ds, rest)"
proof (induction ds arbitrary: acc)
  case Nil
  then show ?case by (cases rest) (simp_all add: deref_def)
next
  case (Cons d ds)
  then show ?case by simp
qed

lemma foldl_digits_bounds:
  "list_all (is_digit base) ds \<Longrightarrow> 0 \<le> acc \<Longrightarrow>
     0 \<le> foldl (\<lambda>acc c. acc * int base + int (the (digit_value c))) acc ds
     \<and> foldl (\<lambda>acc c. acc * int base + int (the (digit_value c))) acc ds
         < (acc + 1) * int base ^ length ds"
proof (induction ds arbitrary: acc)
  case Nil
  then show ?case by simp
next
  case (Cons d ds)
  from Cons.prems have d: "int (the (digit_value d)) < int base"
    by (auto simp: is_digit_def split: option.splits)
  let ?acc' = "acc * int base + int (the (digit_value d))"
  have "0 \<le> ?acc'" using Cons.prems by simp
  from Cons.IH [OF _ this] Cons.prems
  have ih: "0 \<le> foldl (\<lambda>acc c. acc * int base + int (the (digit_value c))) ?acc' ds"
    "foldl (\<lambda>acc c. acc * int base + int (the (digit_value c))) ?acc' ds
       < (?acc' + 1) * int base ^ length ds"
    by simp_all
  have "?acc' + 1 \<le> (acc + 1) * int base"
    using d by (simp add: algebra_simps)
  then have "(?acc' + 1) * int base ^ length ds \<le> (acc + 1) * int base * int base ^ length ds"
    by (intro mult_right_mono) simp_all
  with ih show ?case by (simp add: mult.assoc)
qed

lemma number_bounds:
  "digits base ds \<Longrightarrow> 0 \<le> number base ds \<and> number base ds < int base ^ length ds"
  using foldl_digits_bounds [of base ds 0] by (simp add: digits_def number_def)


lemma is_digit_char:
  assumes "is_digit base c" and "base \<le> 16"
  shows "\<not> isspace c" and "c \<noteq> CHR ''-''" and "c \<noteq> CHR ''+''" and "c \<noteq> CHR ''x''"
    and "c \<noteq> CHR ''X''" and "c \<noteq> CHR '':''" and "c \<noteq> NUL"
  using assms
  by (auto simp: is_digit_def digit_value_def isspace_def NUL_def Let_def split: if_splits)

lemma not_digit_delims:
  "base \<le> 16 \<Longrightarrow> \<not> is_digit base (CHR ''-'')"
  "base \<le> 16 \<Longrightarrow> \<not> is_digit base (CHR '':'')"
  "\<not> is_digit base NUL"
  by (auto simp: is_digit_def digit_value_def NUL_def)

lemma strtol_digits:
  assumes ds: "digits base ds" and base: "base \<le> 16"
    and rest: "\<not> is_digit base (deref rest)" "deref rest \<noteq> CHR ''x''" "deref rest \<noteq> CHR ''X''"
  shows "strtol (ds @ rest) base = (min LONG_MAX (number base ds), rest)"
proof -
  from ds obtain d ds' where dd: "ds = d # ds'" and d: "is_digit base d"
    and all: "list_all (is_digit base) ds"
    by (cases ds) (auto simp: digits_def)
  note dc = is_digit_char [OF d base]
  have p1: "dropWhile isspace (ds @ rest) = ds @ rest"
    using dc(1) dd by simp
  have sign: "deref (ds @ rest) \<noteq> CHR ''-''" "deref (ds @ rest) \<noteq> CHR ''+''"
    using dc(2,3) dd by (simp_all add: deref_def)
  have hp: "\<not> hex_prefix (ds @ rest)"
  proof (cases ds')
    case Nil
    then show ?thesis
      using rest(2,3) dd by (cases rest) (auto simp: hex_prefix_def deref_def split: list.splits)
  next
    case (Cons d2 ds'')
    then have "is_digit base d2" using all dd by simp
    from is_digit_char(4,5) [OF this base] show ?thesis
      using dd Cons by (auto simp: hex_prefix_def split: list.splits)
  qed
  have pd: "parse_digits base 0 (ds @ rest) = (number base ds, rest)"
    using parse_digits_digits [OF all rest(1), of 0] by (simp add: number_def)
  have len: "length rest \<noteq> length (ds @ rest)"
    using dd by simp
  have "0 \<le> number base ds"
    using number_bounds [OF ds] by simp
  then have clamp: "max LONG_MIN (min LONG_MAX (number base ds)) = min LONG_MAX (number base ds)"
    by (simp add: LONG_MIN_def LONG_MAX_def)
  show ?thesis
    using p1 sign hp pd len clamp by (simp add: strtol_def Let_def)
qed


lemma digits_no_delim:
  assumes "digits base ds" and "base \<le> 16"
  shows "\<forall>c\<in>set ds. c \<noteq> CHR ''-''" and "\<forall>c\<in>set ds. c \<noteq> CHR '':''"
    and "deref ds \<noteq> NUL"
proof -
  have all: "\<forall>c\<in>set ds. is_digit base c" and ne: "ds \<noteq> []"
    using assms(1) by (simp_all add: digits_def list_all_iff)
  show "\<forall>c\<in>set ds. c \<noteq> CHR ''-''" and "\<forall>c\<in>set ds. c \<noteq> CHR '':''"
    using all is_digit_char(2,6) [OF _ assms(2)] by blast+
  show "deref ds \<noteq> NUL"
    using all ne is_digit_char(7) [OF _ assms(2)] by (cases ds) (auto simp: deref_def)
qed

lemma stored_small:
  assumes "digits base ds" and "number base ds < 2 ^ 31"
  shows "stored base ds = number base ds"
proof -
  from number_bounds [OF assms(1)] have "0 \<le> number base ds" by simp
  moreover have "min LONG_MAX (number base ds) = number base ds"
    using assms(2) by (simp add: LONG_MAX_def)
  ultimately show ?thesis
    using assms(2) by (simp add: stored_def long_to_int_id)
qed

lemma stored_usb_id:
  assumes "digits 16 ds" and "number 16 ds < 2 ^ 16"
  shows "stored 16 ds \<noteq> -1"
    and "uint (word_of_int (stored 16 ds) :: 16 word) = number 16 ds"
proof -
  from number_bounds [OF assms(1)] have n: "0 \<le> number 16 ds" by simp
  have "number 16 ds < 2 ^ 31" using assms(2) by simp
  from stored_small [OF assms(1) this] have s: "stored 16 ds = number 16 ds" .
  show "stored 16 ds \<noteq> -1" using s n by simp
  show "uint (word_of_int (stored 16 ds) :: 16 word) = number 16 ds"
    using s n assms(2) by (simp add: uint_word_of_int take_bit_int_eq_self)
qed

lemma parse_bus_address:
  assumes b: "digits 10 b" and a: "digits 10 a"
  shows "parse_device_id e argv0 (b @ ''-'' @ a) s
           = Done (s\<lparr>usbbus := stored 10 b, usbaddr := stored 10 a\<rparr>)"
proof -
  have "dropWhile (\<lambda>x. x \<noteq> CHR ''-'') (b @ CHR ''-'' # a) = CHR ''-'' # a"
    using digits_no_delim(1) [OF b] by (simp add: dropWhile_append2)
  then have delim: "strchr (b @ ''-'' @ a) (CHR ''-'') = Some (CHR ''-'' # a)"
    by (simp add: strchr_def)
  have da: "deref a \<noteq> NUL"
    using digits_no_delim(3) [OF a] by simp
  have s1: "strtol (b @ ''-'' @ a) 10 = (min LONG_MAX (number 10 b), CHR ''-'' # a)"
    using strtol_digits [OF b, of "CHR ''-'' # a"] not_digit_delims(1) [of 10]
    by (simp add: deref_def)
  have s2: "strtol a 10 = (min LONG_MAX (number 10 a), [])"
    using strtol_digits [OF a, of "[]"] not_digit_delims(3) [of 10]
    by (simp add: deref_def NUL_def)
  show ?thesis
    using delim da s1 s2
    by (simp add: parse_device_id_def parse_bus_addr_def deref_def stored_def)
qed

lemma parse_vendor_product:
  assumes v: "digits 16 v" and p: "digits 16 p"
  shows "parse_device_id e argv0 (v @ '':'' @ p) s
           = Done (s\<lparr>usbvendor := stored 16 v, usbproduct := stored 16 p\<rparr>)"
proof -
  have "dropWhile (\<lambda>x. x \<noteq> CHR ''-'') p = []"
    using digits_no_delim(1) [OF p] by (simp add: dropWhile_eq_Nil_conv)
  then have nodash: "strchr (v @ '':'' @ p) (CHR ''-'') = None"
    using digits_no_delim(1) [OF v]
    by (simp add: strchr_def dropWhile_append2 del: dropWhile_eq_Nil_conv)
  have "dropWhile (\<lambda>x. x \<noteq> CHR '':'') (v @ CHR '':'' # p) = CHR '':'' # p"
    using digits_no_delim(2) [OF v] by (simp add: dropWhile_append2)
  then have delim: "strchr (v @ '':'' @ p) (CHR '':'') = Some (CHR '':'' # p)"
    by (simp add: strchr_def)
  have dp: "deref p \<noteq> NUL"
    using digits_no_delim(3) [OF p] by simp
  have s1: "strtol (v @ '':'' @ p) 16 = (min LONG_MAX (number 16 v), CHR '':'' # p)"
    using strtol_digits [OF v, of "CHR '':'' # p"] not_digit_delims(2) [of 16]
    by (simp add: deref_def)
  have s2: "strtol p 16 = (min LONG_MAX (number 16 p), [])"
    using strtol_digits [OF p, of "[]"] not_digit_delims(3) [of 16]
    by (simp add: deref_def NUL_def)
  show ?thesis
    using nodash delim dp s1 s2
    by (simp add: parse_device_id_def parse_vid_pid_def deref_def stored_def)
qed

lemma scan_devices_find:
  "scan_devices b a devs =
     List.find (\<lambda>d. uint (bus_number d) = b \<and> uint (device_address d) = a) devs"
  by (induction devs) simp_all

lemma find_device_scan:
  assumes "usbvendor t = -1"
  shows "emitted t (find_device e t) =
           Usb_get_device_list #
           (case List.find (\<lambda>d. uint (bus_number d) = usbbus t \<and> uint (device_address d) = usbaddr t)
                   (devices (get_device_list_res e (clock t))) of
              None \<Rightarrow> []
            | Some d \<Rightarrow> [Usb_open d])
           @ [Usb_free_device_list]"
  using assms
  by (simp add: find_device_def libusb_open_def emitted_def Let_def split_beta
        scan_devices_find split: option.splits)

lemma find_device_vid_pid:
  assumes "usbvendor t \<noteq> -1"
  shows "emitted t (find_device e t) =
           [Usb_open_device_with_vid_pid (word_of_int (usbvendor t)) (word_of_int (usbproduct t))]"
  using assms by (simp add: find_device_def emitted_def)

lemma example_fields:
  "digits 10 ''1''" "digits 10 ''4''" "digits 16 ''1234''" "digits 16 ''abcd''"
  "number 10 ''1'' = 1" "number 10 ''4'' = 4"
  "number 16 ''1234'' = 0x1234" "number 16 ''abcd'' = 0xabcd"
  by (simp_all add: digits_def number_def is_digit_def digit_value_def)

section \<open>Rejected command lines\<close>

lemma parse_ok_usage:
  "list_all is_print ms \<Longrightarrow> trace s = tr @ ms \<Longrightarrow> parse_ok tr argv0 f (usage e c argv0 s)"
  by (simp add: parse_ok_def usage_def)

lemma numeric_option_ok:
  "parse_ok (trace s) argv0 (\<lambda>v. s) (numeric_option e msg optarg argv0 s)"
  by (auto simp: numeric_option_def parse_ok_def split: prod.splits
        intro!: parse_ok_usage [where ms = "[x]" for x, simplified])

lemma parse_options_ok:
  "parse_ok (trace s) argv0 snd (parse_options e argv0 opts port s)"
proof (induction opts arbitrary: port s)
  case Nil
  then show ?case by (simp add: parse_ok_def)
next
  case (Cons opt opts)
  obtain c optarg where opt: "opt = (c, optarg)" by (cases opt) auto
  have ih: "parse_ok (trace s) argv0 snd (parse_options e argv0 opts port' s')"
    if "trace s' = trace s" for port' s'
    using Cons.IH [of s' port'] that by simp
  have num: "parse_ok (trace s) argv0 snd
      (case numeric_option e msg optarg argv0 s of
         Done v \<Rightarrow> parse_options e argv0 opts (g v) (h v)
       | Exited x s' \<Rightarrow> Exited x s' | Crashed s' \<Rightarrow> Crashed s' | Fuel_out s' \<Rightarrow> Fuel_out s')"
    if "\<And>v. trace (h v) = trace s" for msg g h
    using numeric_option_ok [of s argv0 e msg optarg] ih [OF that]
    by (cases "numeric_option e msg optarg argv0 s") (simp_all add: parse_ok_def)
  have us: "parse_ok (trace s) argv0 snd (usage e x argv0 s :: (int \<times> state) outcome)" for x
    by (rule parse_ok_usage [where ms = "[]"]) simp_all
  show ?case
    unfolding opt parse_options.simps
    using num [of "\<lambda>v. s" "\<lambda>v. v"] num [of "\<lambda>v. s\<lparr>verbose := v\<rparr>" "\<lambda>v. port"]
      num [of "\<lambda>v. s\<lparr>wait_timeout := v\<rparr>" "\<lambda>v. port"] ih [of "s\<lparr>wait_mode := True\<rparr>" port]
      ih [of s port] us
    by simp
qed


lemma parse_device_id_ok:
  "parse_ok (trace s) argv0 (\<lambda>t. t) (parse_device_id e argv0 arg s)
   \<and> (is_done (parse_device_id e argv0 arg s)
        \<or> (\<exists>t. parse_device_id e argv0 arg s = Exited 1 t))"
proof -
  have b: "parse_ok (trace s) argv0 (\<lambda>t. t) (parse_bus_addr e argv0 arg delim s)
           \<and> (is_done (parse_bus_addr e argv0 arg delim s)
                \<or> (\<exists>t. parse_bus_addr e argv0 arg delim s = Exited 1 t))" for delim
    by (simp add: parse_bus_addr_def Let_def split_beta invalid_usb_device_id_def usage_def
          parse_ok_def)
  have v: "parse_ok (trace s) argv0 (\<lambda>t. t) (parse_vid_pid e argv0 arg s)
           \<and> (is_done (parse_vid_pid e argv0 arg s)
                \<or> (\<exists>t. parse_vid_pid e argv0 arg s = Exited 1 t))"
    by (simp add: parse_vid_pid_def Let_def split_beta invalid_usb_device_id_def usage_def
          parse_ok_def split: option.splits)
  show ?thesis
    using b v by (simp add: parse_device_id_def split: option.splits)
qed

lemma parse_arguments_ok:
  "parse_ok (trace s) argv0 (\<lambda>t. t) (parse_arguments e argv0 args s)
   \<and> (is_done (parse_arguments e argv0 args s)
        \<or> (\<exists>t. parse_arguments e argv0 args s = Exited 1 t))"
proof (cases args)
  case Nil
  then show ?thesis
    by (auto simp: parse_arguments_def usage_def parse_ok_def)
next
  case (Cons arg extra)
  show ?thesis
  proof (cases "parse_device_id e argv0 arg s")
    case (Done t)
    then have "trace t = trace s"
      using parse_device_id_ok [of s argv0 e arg] by (simp add: parse_ok_def)
    then show ?thesis
      using Cons Done by (auto simp: parse_arguments_def usage_def parse_ok_def)
  qed (use Cons parse_device_id_ok [of s argv0 e arg] in \<open>auto simp: parse_arguments_def\<close>)
qed

text \<open>When the option loop or the checks of the device identifier reject the command
  line, \<open>main\<close> ends there: the process exits, and all it has done is write messages,
  the last of them the usage text.  Nothing has been opened.\<close>

lemma usage_error_opens_nothing:
  assumes "\<not> is_done (parse_options e argv0 opts 4000 initial_state)
           \<or> (\<exists>port s1. parse_options e argv0 opts 4000 initial_state = Done (port, s1)
                 \<and> \<not> is_done (parse_arguments e argv0 args s1))"
  shows "\<exists>c t. main k e argv0 opts args = Exited c t \<and> list_all is_print (trace t)
           \<and> trace t \<noteq> []
           \<and> last (trace t) = Sys_print (if c \<noteq> 0 then Stderr else Stdout) (usage_text argv0)"
proof -
  have t0: "trace initial_state = []"
    by (simp add: initial_state_def)
  note po = parse_options_ok [of initial_state argv0 e opts 4000]
  show ?thesis
  proof (cases "parse_options e argv0 opts 4000 initial_state")
    case (Done r)
    obtain port s1 where r: "r = (port, s1)" by (cases r) auto
    have t1: "trace s1 = []"
      using po Done r t0 by (simp add: parse_ok_def)
    from assms Done r have nd: "\<not> is_done (parse_arguments e argv0 args s1)"
      by simp
    with parse_arguments_ok [of s1 argv0 e args] obtain t
      where ex: "parse_arguments e argv0 args s1 = Exited 1 t"
      by auto
    with parse_arguments_ok [of s1 argv0 e args] t1
    have "list_all is_print (trace t) \<and> trace t \<noteq> []
           \<and> last (trace t) = Sys_print Stderr (usage_text argv0)"
      by (auto simp: parse_ok_def)
    moreover have "main k e argv0 opts args = Exited 1 t"
      using Done r ex by (simp add: main_def)
    ultimately show ?thesis by auto
  next
    case (Exited c t)
    with po t0 have "list_all is_print (trace t) \<and> trace t \<noteq> []
           \<and> last (trace t) = Sys_print (if c \<noteq> 0 then Stderr else Stdout) (usage_text argv0)"
      by (auto simp: parse_ok_def)
    moreover have "main k e argv0 opts args = Exited c t"
      using Exited by (simp add: main_def)
    ultimately show ?thesis by blast
  next
    case (Crashed t)
    with po show ?thesis by (simp add: parse_ok_def)
  next
    case (Fuel_out t)
    with po show ?thesis by (simp add: parse_ok_def)
  qed
qed

section \<open>Concrete runs\<close>

lemmas run_defs = run_main_loop_def leave_main_loop_def iteration_def wait_for_events_def
  dispatch_def wait_mode_eval_def probe_def reconnect_def reopen_def find_device_def
  usbredirhost_read_guest_data_def usbredirhost_write_guest_data_def set_peer_caps_def
  usbredirserver_read_def usbredirserver_write_def os_io_def wrapper_defs
  FD_SET_def FD_ISSET_def usb_ready_def ready_count_def Let_def emitted_def

lemma pump_error_run:
  "trace (final (run_main_loop (Suc 0) pump_error_env session_state)) =
     [Host_has_data_to_write, Usb_get_pollfds, Usb_get_next_timeout,
      Sys_select 6 [5] [] (Some (Default_timeout 3)), Host_read_guest_data,
      Sys_read 5 (Io_done 10), Sys_close Main_loop 5]"
  by (simp add: fixture_defs run_defs)

lemma close_pending_run:
  "emitted session_state (final (run_main_loop (Suc 0) close_pending_env session_state)) =
     [Host_has_data_to_write, Usb_get_pollfds, Usb_get_next_timeout,
      Sys_select 6 [5] [5] (Some (Default_timeout 3)), Host_read_guest_data,
      Sys_read 5 (Io_done 0), Sys_close Read_callback 5]"
  by (simp add: fixture_defs run_defs)

lemma replug_iteration_run:
  "emitted session_state
     (end_state (\<lambda>r. snd (snd r)) (iteration (Suc 0) replug_env 1 session_state)) =
     [Host_has_data_to_write, Usb_get_pollfds, Usb_get_next_timeout,
      Sys_select 6 [5] [] (Some (Default_timeout 3)), Usb_handle_events_timeout,
      Host_is_disconnected, Usb_get_configuration, Host_disconnect, Enter_reconnecting,
      Host_write_guest_data, Sys_sleep 3, Host_read_guest_data, Usb_exit, Usb_init,
      Usb_set_debug 3, Usb_open_device_with_vid_pid 4660 43981, Host_save_caps,
      Host_open (Some 9) True, Host_restore_caps [5], Host_write_guest_data]"
  by (simp add: fixture_defs run_defs usbredirhost_save_caps_def
        usbredirhost_restore_caps_and_send_device_connect_def)

lemma busy_iteration_run:
  "emitted session_state
     (end_state (\<lambda>r. snd (snd r)) (iteration (Suc 0) busy_env 1 session_state)) =
     [Host_has_data_to_write, Usb_get_pollfds, Usb_get_next_timeout,
      Sys_select 8 [7, 5] [5] (Some (Default_timeout 3)), Host_read_guest_data,
      Sys_read 5 (Io_done 10), Host_write_guest_data, Sys_write 5 (Io_done 10),
      Usb_handle_events_timeout, Host_is_disconnected]"
  by (simp add: fixture_defs run_defs)

lemma close_pending_loop:
  "main_loop (Suc 0) close_pending_env 0 session_state
     = Done (final (run_main_loop (Suc 0) close_pending_env session_state))"
  "client_fd (final (run_main_loop (Suc 0) close_pending_env session_state)) = -1"
  by (simp_all add: fixture_defs run_defs)

lemma pump_error_loop:
  "is_done (main_loop (Suc 0) pump_error_env 0 session_state)"
  "emitted session_state (final (main_loop (Suc 0) pump_error_env 0 session_state)) =
     [Host_has_data_to_write, Usb_get_pollfds, Usb_get_next_timeout,
      Sys_select 6 [5] [] (Some (Default_timeout 3)), Host_read_guest_data,
      Sys_read 5 (Io_done 10)]"
  "client_fd (final (main_loop (Suc 0) pump_error_env 0 session_state)) = 5"
  "running (final (main_loop (Suc 0) pump_error_env 0 session_state))"
  by (simp_all add: fixture_defs run_defs)


lemmas parse_defs = parse_arguments_def parse_device_id_def parse_vid_pid_def parse_bus_addr_def
  numeric_option_def strchr_def strtol_def hex_prefix_def is_digit_def digit_value_def
  isspace_def deref_def NUL_def LONG_MAX_def LONG_MIN_def long_to_int_def
  invalid_usb_device_id_def usage_def

lemma empty_vendor_parse:
  "parse_device_id quiet_env ''usbredirserver'' '':5'' initial_state
     = Done (initial_state\<lparr>usbvendor := 0, usbproduct := 5\<rparr>)"
  by (simp add: parse_defs)

lemma empty_number_parse:
  "numeric_option quiet_env ''Invalid value for --port: '' [] ''usbredirserver'' initial_state
     = Done 0"
  by (simp add: parse_defs)

lemma empty_vendor_run:
  "trace (final (main (Suc 0) quiet_env ''usbredirserver'' [] ['':5''])) =
     [Sys_sigaction, Sys_sigaction, Sys_sigaction, Sys_sigaction, Usb_init, Usb_set_debug 3,
      Sys_socket, Sys_setsockopt 3, Sys_bind 3 4000, Sys_listen 3, Sys_accept 3, Sys_fcntl 5,
      Sys_fcntl 5, Usb_open_device_with_vid_pid 0 5, Sys_close Main_fn 5]"
proof -
  have "parse_arguments quiet_env ''usbredirserver'' ['':5''] initial_state
          = Done (initial_state\<lparr>usbvendor := 0, usbproduct := 5\<rparr>)"
    by (simp add: parse_arguments_def empty_vendor_parse)
  then have "main (Suc 0) quiet_env ''usbredirserver'' [] ['':5''] =
      (case start_server quiet_env 4000 (initial_state\<lparr>usbvendor := 0, usbproduct := 5\<rparr>) of
         Done (server_fd, s3) \<Rightarrow>
           (case accept_loop (Suc 0) quiet_env server_fd s3 of
              Done s4 \<Rightarrow>
                Exited 0 (libusb_exit quiet_env (call quiet_env (Sys_close Main_fn server_fd) s4))
            | Exited x s' \<Rightarrow> Exited x s'
            | Crashed s' \<Rightarrow> Crashed s'
            | Fuel_out s' \<Rightarrow> Fuel_out s')
       | Exited x s' \<Rightarrow> Exited x s'
       | Crashed s' \<Rightarrow> Crashed s'
       | Fuel_out s' \<Rightarrow> Fuel_out s')"
    by (simp add: main_def)
  then show ?thesis
    by (simp add: start_server_def accept_client_def fixture_defs run_defs)
qed

lemma rejected_run:
  "main (Suc 0) quiet_env ''usbredirserver'' [] [''1-4x''] =
     Exited 1 (final (main (Suc 0) quiet_env ''usbredirserver'' [] [''1-4x'']))"
  "trace (final (main (Suc 0) quiet_env ''usbredirserver'' [] [''1-4x''])) =
     [Sys_print Stderr ''Invalid usb device identifier: 1-4x\<newline>'',
      Sys_print Stderr (usage_text ''usbredirserver'')]"
  by (simp_all add: main_def parse_defs fixture_defs)

lemma decimal_4000: "decimal 4000 = ''4000''"
  by (simp add: decimal_def decimal_nat.simps)

lemma bind_failure_run:
  "main (Suc 0) port_taken_env ''usbredirserver'' [] [''1-4''] =
     Exited 1 (final (main (Suc 0) port_taken_env ''usbredirserver'' [] [''1-4'']))"
  "trace (final (main (Suc 0) port_taken_env ''usbredirserver'' [] [''1-4''])) =
     [Sys_sigaction, Sys_sigaction, Sys_sigaction, Sys_sigaction, Usb_init, Usb_set_debug 3,
      Sys_socket, Sys_setsockopt 3, Sys_bind 3 4000,
      Sys_print Stderr ''Error binding port 4000: Address already in use\<newline>'']"
  by (simp_all add: main_def parse_defs start_server_def port_taken_env_def fixture_defs
        wrapper_defs decimal_4000)

lemma wait_vendor_product_parse:
  "parse_options unplug_env ''usbredirserver'' [(CHR ''w'', [])] 4000 initial_state
     = Done (4000, initial_state\<lparr>wait_mode := True\<rparr>)"
  "parse_arguments unplug_env ''usbredirserver'' [''1234:abcd''] (initial_state\<lparr>wait_mode := True\<rparr>)
     = Done (initial_state\<lparr>wait_mode := True, usbvendor := 0x1234, usbproduct := 0xabcd\<rparr>)"
  by (simp_all add: parse_defs)

lemma init_failure_ends_process:
  "main (Suc (Suc (Suc (Suc 0)))) unplug_env ''usbredirserver'' [(CHR ''w'', [])] [''1234:abcd'']
     = Exited 1 (final (main (Suc (Suc (Suc (Suc 0)))) unplug_env ''usbredirserver''
                          [(CHR ''w'', [])] [''1234:abcd'']))"
  "trace (final (main (Suc (Suc (Suc (Suc 0)))) unplug_env ''usbredirserver''
                          [(CHR ''w'', [])] [''1234:abcd''])) =
       [Sys_sigaction, Sys_sigaction, Sys_sigaction, Sys_sigaction,
        Usb_init, Usb_set_debug 3, Sys_socket, Sys_setsockopt 3,
        Sys_bind 3 4000, Sys_listen 3, Sys_accept 3, Sys_fcntl 5,
        Sys_fcntl 5, Usb_open_device_with_vid_pid 0x1234 0xabcd,
        Host_open (Some 7) False, Host_has_data_to_write, Usb_get_pollfds,
        Usb_get_next_timeout,
        Sys_select 6 [5] [] (Some (Default_timeout 3)),
        Usb_handle_events_timeout, Host_is_disconnected,
        Host_has_data_to_write, Usb_get_pollfds, Usb_get_next_timeout,
        Sys_select 6 [5] [] (Some (Default_timeout 3)),
        Usb_handle_events_timeout, Host_is_disconnected,
        Usb_get_configuration, Host_disconnect, Enter_reconnecting,
        Host_write_guest_data, Sys_sleep 3, Host_read_guest_data, Usb_exit,
        Usb_init, Sys_print Stderr ''Could not init libusb\<newline>'']"
  by (simp_all only: main_def wait_vendor_product_parse outcome.case prod.case)
     (simp_all add: start_server_def accept_client_def fixture_defs run_defs)

text \<open>Fields outside the range of the variables.  A vendor field \<open>ffffffff\<close> wraps
  to \<open>-1\<close>, the value that stands for "no vendor given"; the vendor \<open>12345\<close> is kept
  in the \<open>int\<close> and cut to 16 bits when it is passed to libusb; a bus number of
  \<open>2\<^sup>3\<^sup>2 + 1\<close> wraps to 1.\<close>

lemma out_of_range_parse:
  "parse_device_id quiet_env ''usbredirserver'' ''ffffffff:1'' initial_state
     = Done (initial_state\<lparr>usbvendor := -1, usbproduct := 1\<rparr>)"
  "parse_device_id quiet_env ''usbredirserver'' ''12345:1'' initial_state
     = Done (initial_state\<lparr>usbvendor := 0x12345, usbproduct := 1\<rparr>)"
  "parse_device_id quiet_env ''usbredirserver'' ''4294967297-4'' initial_state
     = Done (initial_state\<lparr>usbbus := 1, usbaddr := 4\<rparr>)"
  by (simp_all add: parse_defs)


section \<open>How the retry block ends\<close>

lemma run_callbacks_grows: "\<exists>evs. trace (run_callbacks e cbs s) = trace s @ evs"
  using loop_inv_run_callbacks [OF loop_inv_refl, of s e cbs] by (auto simp: loop_inv_def)

lemma reopen_new_instance:
  assumes "reopen e s = Done s'" and "host s = Some old"
  shows "\<exists>h cbs. host_open_res e (Suc (clock s)) = Some h
          \<and> host s' = Some (usbredirhost_restore_caps_and_send_device_connect h
                              (usbredirhost_save_caps old))
          \<and> trace s' = trace s @ [Host_save_caps, Host_open (handle s) True,
                 Host_restore_caps (usbredirhost_save_caps old), Host_write_guest_data] @ cbs"
proof -
  from assms obtain h where h: "host_open_res e (Suc (clock s)) = Some h"
    by (auto simp: reopen_def Let_def split: option.splits)
  let ?s3 = "(call e (Host_restore_caps (usbredirhost_save_caps old))
               ((call e (Host_open (handle s) True) (call e Host_save_caps s))
                  \<lparr>host := Some h\<rparr>))
             \<lparr>host := Some (usbredirhost_restore_caps_and_send_device_connect h
                             (usbredirhost_save_caps old))\<rparr>"
  from assms h have s': "s' = snd (usbredirhost_write_guest_data e ?s3)"
    by (simp add: reopen_def Let_def)
  obtain cbs where "trace s' = trace (call e Host_write_guest_data ?s3) @ cbs"
    unfolding s' usbredirhost_write_guest_data_def
    using run_callbacks_grows [of e _ "call e Host_write_guest_data ?s3"]
    by (auto simp: split_beta)
  then show ?thesis
    using h s' by simp
qed

lemma find_device_ticks:
  "\<exists>evs. trace (find_device e s) = trace s @ evs
     \<and> clock (find_device e s) = clock s + length evs"
  by (auto simp: find_device_def libusb_open_def Let_def split: option.splits prod.splits)

lemma retry_loop_reopens:
  assumes "retry_loop k e s = Done s'" and "client_fd s \<noteq> -1"
  shows "\<exists>u pre. reopen e u = Done s' \<and> host u = host s \<and> trace u = trace s @ pre
           \<and> clock u = clock s + length pre"
  using assms
proof (induction k arbitrary: s)
  case 0
  then show ?case by simp
next
  case (Suc k)
  let ?s3 = "libusb_set_debug e (snd (libusb_init e (libusb_exit e s)))"
  let ?s4 = "find_device e ?s3"
  from Suc.prems have rc: "fst (libusb_init e (libusb_exit e s)) = 0"
    by (auto simp: split_beta Let_def split: if_splits)
  have t3: "trace ?s3 = trace s @ [Usb_exit, Usb_init, Usb_set_debug (verbose s)]"
    and c3: "clock ?s3 = clock s + 3" and h3: "host ?s3 = host s"
    by (simp_all add: wrapper_defs split_beta)
  obtain evs where t4: "trace ?s4 = trace ?s3 @ evs" and c4: "clock ?s4 = clock ?s3 + length evs"
    using find_device_ticks [of e ?s3] by auto
  have h4: "host ?s4 = host s" and fd4: "client_fd ?s4 \<noteq> -1"
    using h3 Suc.prems(2) by (simp_all add: wrapper_defs split_beta)
  show ?case
  proof (cases "handle ?s4")
    case None
    let ?s5 = "sleep e (wait_timeout ?s4) ?s4"
    from Suc.prems rc None have "retry_loop k e ?s5 = Done s'"
      by (simp add: Let_def split_beta)
    moreover have "client_fd ?s5 \<noteq> -1"
      using fd4 by (simp add: sleep_def)
    ultimately obtain u pre where u: "reopen e u = Done s'" "host u = host ?s5"
      "trace u = trace ?s5 @ pre" "clock u = clock ?s5 + length pre"
      using Suc.IH [of ?s5] by auto
    have "trace u = trace s @ ([Usb_exit, Usb_init, Usb_set_debug (verbose s)] @ evs
                      @ [Sys_sleep (wait_timeout ?s4)] @ pre)"
      using u(3) t4 t3 by (simp add: sleep_def)
    moreover have "clock u = clock s + length ([Usb_exit, Usb_init, Usb_set_debug (verbose s)] @ evs
                      @ [Sys_sleep (wait_timeout ?s4)] @ pre)"
      using u(4) c4 c3 by (simp add: sleep_def)
    moreover have "host u = host s"
      using u(2) h4 by (simp add: sleep_def)
    ultimately show ?thesis
      using u(1) by blast
  next
    case (Some h)
    from Suc.prems rc Some have "reopen e ?s4 = Done s'"
      by (simp add: Let_def split_beta)
    moreover have "trace ?s4 = trace s @ ([Usb_exit, Usb_init, Usb_set_debug (verbose s)] @ evs)"
      using t4 t3 by simp
    moreover have "clock ?s4 = clock s + length ([Usb_exit, Usb_init, Usb_set_debug (verbose s)] @ evs)"
      using c4 c3 by simp
    ultimately show ?thesis
      using h4 by blast
  qed
qed


lemma reopen_ends:
  "reopen e u \<noteq> Exited c t"
  "reopen e u \<noteq> Fuel_out t"
  "reopen e u = Crashed t \<Longrightarrow> host t = None \<and> client_fd t = client_fd u"
  by (auto simp: reopen_def Let_def split: option.splits)



lemma retry_loop_ends:
  "(retry_loop k e s = Exited c t \<longrightarrow>
      c = 1 \<and> client_fd t \<noteq> -1 \<and> trace t \<noteq> []
      \<and> last (trace t) = Sys_print Stderr ''Could not init libusb\<newline>'')
   \<and> (retry_loop k e s = Crashed t \<longrightarrow> host t = None \<and> client_fd t \<noteq> -1)
   \<and> (retry_loop k e s = Fuel_out t \<longrightarrow> client_fd t \<noteq> -1)"
proof (induction k arbitrary: s)
  case 0
  then show ?case by auto
next
  case (Suc k)
  let ?s2 = "snd (libusb_init e (libusb_exit e s))"
  let ?s4 = "find_device e (libusb_set_debug e ?s2)"
  show ?case
  proof (cases "client_fd s = -1")
    case True
    then show ?thesis by simp
  next
    case False
    have fd2: "client_fd ?s2 \<noteq> -1" and fd4: "client_fd ?s4 \<noteq> -1"
      using False by (simp_all add: wrapper_defs split_beta)
    show ?thesis
    proof (cases "fst (libusb_init e (libusb_exit e s)) = 0")
      case rc: False
      then show ?thesis
        using False fd2 by (auto simp: split_beta)
    next
      case rc: True
      show ?thesis
      proof (cases "handle ?s4")
        case None
        have "client_fd (sleep e (wait_timeout ?s4) ?s4) \<noteq> -1"
          using fd4 by (simp add: sleep_def)
        with Suc.IH [of "sleep e (wait_timeout ?s4) ?s4"] show ?thesis
          using False rc None by (simp add: Let_def split_beta)
      next
        case (Some h)
        have "retry_loop (Suc k) e s = reopen e ?s4"
          using False rc Some by (simp add: Let_def split_beta)
        then show ?thesis
          using reopen_ends [of e ?s4] fd4 by auto
      qed
    qed
  qed
qed



section \<open>How the event loop ends\<close>

lemma reconnect_ends:
  "(reconnect k e s = Exited c t \<longrightarrow>
      c = 1 \<and> trace t \<noteq> [] \<and> last (trace t) = Sys_print Stderr ''Could not init libusb\<newline>'')
   \<and> (reconnect k e s = Crashed t \<longrightarrow> host t = None)"
  using retry_loop_ends [of k e _ c t] by (simp add: reconnect_def Let_def)

lemma wait_mode_eval_ends:
  "(wait_mode_eval k e n w s = Exited c t \<longrightarrow>
      c = 1 \<and> trace t \<noteq> [] \<and> last (trace t) = Sys_print Stderr ''Could not init libusb\<newline>'')
   \<and> (wait_mode_eval k e n w s = Crashed t \<longrightarrow> host t = None)"
  using reconnect_ends [of k e _ c t]
  by (auto simp: wait_mode_eval_def Let_def split_beta split: outcome.splits if_splits)

lemma iteration_ends:
  "(iteration k e w s = Exited c t \<longrightarrow>
      c = 1 \<and> trace t \<noteq> [] \<and> last (trace t) = Sys_print Stderr ''Could not init libusb\<newline>'')
   \<and> (iteration k e w s = Crashed t \<longrightarrow> host t = None)"
  using wait_mode_eval_ends [of k e _ w _ c t]
  by (auto simp: iteration_def Let_def
        split: prod.splits select_answer.splits ctl.splits outcome.splits if_splits)

lemma main_loop_ends:
  "(main_loop k e w s = Exited c t \<longrightarrow>
      c = 1 \<and> trace t \<noteq> [] \<and> last (trace t) = Sys_print Stderr ''Could not init libusb\<newline>'')
   \<and> (main_loop k e w s = Crashed t \<longrightarrow> host t = None)"
proof (induction k arbitrary: w s)
  case 0
  then show ?case by simp
next
  case (Suc k)
  show ?case
  proof (cases "running s \<and> client_fd s \<noteq> -1")
    case False
    then show ?thesis by auto
  next
    case True
    show ?thesis
    proof (cases "iteration k e w s")
      case (Done r)
      obtain c' w' s' where r: "r = (c', w', s')" by (cases r) auto
      show ?thesis
        using True Done r Suc.IH [of w' s'] by (cases c') auto
    next
      case (Exited x s')
      then show ?thesis
        using True iteration_ends [of k e w s x s'] by auto
    next
      case (Crashed s')
      then show ?thesis
        using True iteration_ends [of k e w s c s'] by auto
    next
      case (Fuel_out s')
      then show ?thesis
        using True by auto
    qed
  qed
qed

lemma dispatch_break:
  assumes "dispatch e pollfds rd wr s = (Break, u)" and "client_fd u \<noteq> -1"
  shows "(\<exists>v. fst (usbredirhost_read_guest_data e v) \<noteq> 0
              \<and> u = snd (usbredirhost_read_guest_data e v))
         \<or> (\<exists>v. fst (usbredirhost_write_guest_data e v) \<noteq> 0
              \<and> u = snd (usbredirhost_write_guest_data e v))"
proof -
  let ?r = "if FD_ISSET (client_fd s) rd then usbredirhost_read_guest_data e s else (0, s)"
  let ?w = "if FD_ISSET (client_fd (snd ?r)) wr
            then usbredirhost_write_guest_data e (snd ?r) else (0, snd ?r)"
  show ?thesis
  proof (cases "fst ?r \<noteq> 0")
    case True
    then have "FD_ISSET (client_fd s) rd"
      by (auto split: if_splits)
    moreover from assms(1) True have "u = snd ?r"
      by (simp add: dispatch_def Let_def split_beta)
    ultimately show ?thesis
      using True by auto
  next
    case False
    with assms have fd: "client_fd (snd ?r) \<noteq> -1"
      by (auto simp: dispatch_def Let_def split_beta split: if_splits)
    with assms False have w: "fst ?w \<noteq> 0" and u: "u = snd ?w"
      by (auto simp: dispatch_def Let_def split_beta split: if_splits)
    from w have "FD_ISSET (client_fd (snd ?r)) wr"
      by (auto split: if_splits)
    with w u show ?thesis
      by auto
  qed
qed

lemma iteration_break:
  assumes "iteration k e w s = Done (Break, w', u)" and "client_fd u \<noteq> -1"
  shows "(trace u \<noteq> [] \<and> last (trace u) = Sys_perror ''select'')
         \<or> (\<exists>v. fst (usbredirhost_read_guest_data e v) \<noteq> 0
              \<and> u = snd (usbredirhost_read_guest_data e v))
         \<or> (\<exists>v. fst (usbredirhost_write_guest_data e v) \<noteq> 0
              \<and> u = snd (usbredirhost_write_guest_data e v))"
proof -
  obtain pollfds ans s1 where wfe: "wait_for_events e s = (pollfds, ans, s1)"
    by (cases "wait_for_events e s") auto
  show ?thesis
  proof (cases ans)
    case (Sel_failed er)
    with assms wfe have "u = call e (Sys_perror ''select'') s1"
      by (auto simp: iteration_def split: if_splits)
    then show ?thesis by simp
  next
    case (Sel_ready rd wr)
    let ?n = "ready_count rd wr"
    let ?s2 = "if ?n = 0 then libusb_handle_events_timeout e s1 else s1"
    obtain c s3 where disp: "dispatch e pollfds rd wr ?s2 = (c, s3)"
      by force
    from assms(1) wfe Sel_ready disp have "c = Break \<and> s3 = u"
      by (auto simp: iteration_def Let_def split: if_splits ctl.splits outcome.splits)
    with disp have "dispatch e pollfds rd wr ?s2 = (Break, u)"
      by simp
    from dispatch_break [OF this assms(2)] show ?thesis
      by blast
  qed
qed

lemma main_loop_left_open:
  assumes "main_loop k e w s = Done u" and "client_fd u \<noteq> -1"
  shows "\<not> running u
         \<or> (trace u \<noteq> [] \<and> last (trace u) = Sys_perror ''select'')
         \<or> (\<exists>v. fst (usbredirhost_read_guest_data e v) \<noteq> 0
              \<and> u = snd (usbredirhost_read_guest_data e v))
         \<or> (\<exists>v. fst (usbredirhost_write_guest_data e v) \<noteq> 0
              \<and> u = snd (usbredirhost_write_guest_data e v))"
  using assms
proof (induction k arbitrary: w s)
  case 0
  then show ?case by (auto split: if_splits)
next
  case (Suc k)
  show ?case
  proof (cases "running s \<and> client_fd s \<noteq> -1")
    case False
    with Suc.prems show ?thesis by auto
  next
    case True
    show ?thesis
    proof (cases "iteration k e w s")
      case (Done r)
      obtain c w' s' where r: "r = (c, w', s')" by (cases r) auto
      show ?thesis
      proof (cases c)
        case Next
        with Suc.prems True Done r have "main_loop k e w' s' = Done u"
          by simp
        from Suc.IH [OF this Suc.prems(2)] show ?thesis .
      next
        case Break
        with Suc.prems True Done r have "s' = u"
          by simp
        with Done r Break have "iteration k e w s = Done (Break, w', u)"
          by simp
        from iteration_break [OF this Suc.prems(2)] show ?thesis
          by blast
      qed
    qed (use Suc.prems True in auto)
  qed
qed

section \<open>The write callback\<close>




section \<open>The retry block\<close>

text \<open>
  Claim C9.  When \<open>libusb_init\<close> fails in the retry block of the wait-mode reconnection
  (the channel being open, so that the block's body runs), the process exits with
  status 1 right after the message on stderr: the retry block makes no further call, it
  neither retries nor returns to the event loop.  The functions around the retry block
  pass an exit on unchanged; \<open>init_failure_ends_process\<close> computes a run of \<open>main\<close>
  that ends this way.
\<close>

theorem libusb_init_failure_exits:
  assumes "client_fd s \<noteq> -1" and "fst (libusb_init_res e (Suc (clock s))) \<noteq> 0"
  shows "retry_loop (Suc k) e s =
           Exited 1 (call e (Sys_print Stderr ''Could not init libusb\<newline>'')
                      (snd (libusb_init e (libusb_exit e s))))
         \<and> trace (final (retry_loop (Suc k) e s)) =
             trace s @ [Usb_exit, Usb_init, Sys_print Stderr ''Could not init libusb\<newline>'']"
  using assms
  by (auto simp: libusb_init_def libusb_exit_def split: prod.splits)

theorem libusb_init_failure_exits_witness:
  "client_fd session_state \<noteq> -1
   \<and> fst (libusb_init_res init_fail_env (Suc (clock session_state))) \<noteq> 0
   \<and> trace (final (retry_loop (Suc 0) init_fail_env session_state)) =
       [Usb_exit, Usb_init, Sys_print Stderr ''Could not init libusb\<newline>'']"
proof -
  have h1: "client_fd session_state \<noteq> -1"
    by (simp add: fixture_defs)
  have h2: "fst (libusb_init_res init_fail_env (Suc (clock session_state))) \<noteq> 0"
    by (simp add: fixture_defs)
  have t: "trace session_state = []"
    by (simp add: fixture_defs)
  from libusb_init_failure_exits [OF h1 h2, of 0, THEN conjunct2] t h1 h2 show ?thesis
    by (simp del: retry_loop.simps)
qed

lemma replug_run:
  "retry_loop (Suc 0) replug_env session_state
     = Done (final (retry_loop (Suc 0) replug_env session_state))"
  by (simp add: fixture_defs wrapper_defs find_device_def reopen_def Let_def
       usbredirhost_write_guest_data_def)

lemma replug_retry_run:
  "emitted session_state (final (retry_loop (Suc 0) replug_env session_state)) =
     [Usb_exit, Usb_init, Usb_set_debug 3, Usb_open_device_with_vid_pid 0x1234 0xabcd,
      Host_save_caps, Host_open (Some 9) True, Host_restore_caps [5], Host_write_guest_data]"
  "host (final (retry_loop (Suc 0) replug_env session_state))
     = Some \<lparr>host_id = 5, peer_caps = [5]\<rparr>"
  "host_open_res replug_env 5 = Some \<lparr>host_id = 5, peer_caps = []\<rparr>"
  "handle (final (retry_loop (Suc 0) replug_env session_state)) = Some 9"
  by (simp_all add: fixture_defs run_defs usbredirhost_save_caps_def
        usbredirhost_restore_caps_and_send_device_connect_def)

text \<open>
  Claim C5.  Whenever the retry block is entered with the channel open and returns, that
  is, whenever a reconnection succeeds, its last calls are \<open>usbredirhost_save_caps\<close> on
  the old instance, \<open>usbredirhost_open\<close> on the device handle,
  \<open>usbredirhost_restore_caps_and_send_device_connect\<close> with the snapshot saved from the
  old instance, and the flush.  The instance that is
  current afterwards is the one this call of \<open>usbredirhost_open\<close> returned, with the
  saved snapshot restored into it, and the snapshot observed on it equals the snapshot
  saved from the old instance: saving and restoring is a round trip on the capability
  content.
\<close>

theorem reconnection_preserves_caps:
  assumes "retry_loop k e s = Done s'" and "client_fd s \<noteq> -1" and "host s = Some old"
  shows "\<exists>pre h cbs.
           emitted s s' =
             pre @ [Host_save_caps, Host_open (handle s') True,
                    Host_restore_caps (usbredirhost_save_caps old), Host_write_guest_data] @ cbs
           \<and> host_open_res e (clock s + length pre + 1) = Some h
           \<and> host s' = Some (usbredirhost_restore_caps_and_send_device_connect h
                               (usbredirhost_save_caps old))
           \<and> usbredirhost_save_caps (usbredirhost_restore_caps_and_send_device_connect h
                               (usbredirhost_save_caps old)) = usbredirhost_save_caps old"
proof -
  from retry_loop_reopens [OF assms(1,2)] obtain u pre
    where u: "reopen e u = Done s'" "host u = host s" "trace u = trace s @ pre"
      "clock u = clock s + length pre"
    by auto
  from reopen_new_instance [OF u(1), of old] u(2) assms(3) obtain h cbs
    where h: "host_open_res e (Suc (clock u)) = Some h"
      "host s' = Some (usbredirhost_restore_caps_and_send_device_connect h
                              (usbredirhost_save_caps old))"
      "trace s' = trace u @ [Host_save_caps, Host_open (handle u) True,
                 Host_restore_caps (usbredirhost_save_caps old), Host_write_guest_data] @ cbs"
    by auto
  have "handle s' = handle u"
    using u(1) by (rule reopen_handle)
  then have "emitted s s' = pre @ [Host_save_caps, Host_open (handle s') True,
                 Host_restore_caps (usbredirhost_save_caps old), Host_write_guest_data] @ cbs"
    using h(3) u(3) by (simp add: emitted_def)
  moreover have "host_open_res e (clock s + length pre + 1) = Some h"
    using h(1) u(4) by simp
  moreover have "usbredirhost_save_caps (usbredirhost_restore_caps_and_send_device_connect h
                               (usbredirhost_save_caps old)) = usbredirhost_save_caps old"
    by (simp add: usbredirhost_save_caps_def usbredirhost_restore_caps_and_send_device_connect_def)
  ultimately show ?thesis
    using h(2) by blast
qed

theorem reconnection_preserves_caps_witness:
  "retry_loop (Suc 0) replug_env session_state
     = Done (final (retry_loop (Suc 0) replug_env session_state))
   \<and> client_fd session_state \<noteq> -1
   \<and> host session_state = Some \<lparr>host_id = 0, peer_caps = [5]\<rparr>
   \<and> (\<exists>pre h cbs.
         emitted session_state (final (retry_loop (Suc 0) replug_env session_state)) =
           pre @ [Host_save_caps, Host_open (Some 9) True, Host_restore_caps [5],
                  Host_write_guest_data] @ cbs
         \<and> host_open_res replug_env (length pre + 1) = Some h
         \<and> host (final (retry_loop (Suc 0) replug_env session_state))
             = Some (usbredirhost_restore_caps_and_send_device_connect h [5]))
   \<and> host_open_res replug_env 5 = Some \<lparr>host_id = 5, peer_caps = []\<rparr>
   \<and> host (final (retry_loop (Suc 0) replug_env session_state))
       = Some \<lparr>host_id = 5, peer_caps = [5]\<rparr>"
proof -
  have h: "client_fd session_state \<noteq> -1"
    "host session_state = Some \<lparr>host_id = 0, peer_caps = [5]\<rparr>"
    by (simp_all add: fixture_defs)
  have c: "clock session_state = 0"
    by (simp add: fixture_defs)
  have sv: "usbredirhost_save_caps \<lparr>host_id = 0, peer_caps = [5]\<rparr> = [5]"
    by (simp add: usbredirhost_save_caps_def)
  from reconnection_preserves_caps [OF replug_run h]
  have "\<exists>pre h cbs.
         emitted session_state (final (retry_loop (Suc 0) replug_env session_state)) =
           pre @ [Host_save_caps, Host_open (Some 9) True, Host_restore_caps [5],
                  Host_write_guest_data] @ cbs
         \<and> host_open_res replug_env (length pre + 1) = Some h
         \<and> host (final (retry_loop (Suc 0) replug_env session_state))
             = Some (usbredirhost_restore_caps_and_send_device_connect h [5])"
    unfolding sv c replug_retry_run(4) by (auto simp del: retry_loop.simps)
  then show ?thesis
    using h replug_run replug_retry_run(2,3) by blast
qed

section \<open>Who closes the channel\<close>

text \<open>
  Claim C1 as stated fails.  In wait-mode, with the peer still connected (the read
  returns ten bytes), an error of the inbound pump leaves the loop, and
  \<open>run_main_loop\<close> closes the descriptor itself: the last event is the close of line
  323, and no callback has closed anything.
\<close>

theorem pump_error_closes_in_wait_mode:
  "wait_mode session_state
   \<and> trace (final (run_main_loop (Suc 0) pump_error_env session_state)) =
       [Host_has_data_to_write, Usb_get_pollfds, Usb_get_next_timeout,
        Sys_select 6 [5] [] (Some (Default_timeout 3)), Host_read_guest_data,
        Sys_read 5 (Io_done 10), Sys_close Main_loop 5]
   \<and> list_ex engine_close (trace (final (run_main_loop (Suc 0) pump_error_env session_state)))
   \<and> \<not> list_ex peer_close (trace (final (run_main_loop (Suc 0) pump_error_env session_state)))"
  by (simp add: pump_error_run) (simp add: fixture_defs)

text \<open>
  Claim C1, as amended.  In wait-mode, as outside it, the engine never closes the
  Transport Channel on its own account inside the event loop, the reconnection block
  included: the events of the loop hold no close made by the server outside the
  callbacks, and \<open>client_fd\<close> changes there only to \<open>-1\<close>, when a transport callback
  has closed the descriptor because the peer has closed the connection.  The engine's
  one close of its own is that of lines 322-325, made when the loop has been left with
  the channel still open; the loop is left so only when the termination flag has been
  cleared, when \<open>select\<close> has failed, or when a pump has reported an error.  When the
  loop is left with the channel closed, \<open>run_main_loop\<close> adds nothing.  A run that does
  not return from the loop has the channel open and has closed nothing: the process
  exits with status 1 after \<open>libusb_init\<close> has failed, or a \<open>NULL\<close> instance reaches
  the library (the connection then ends with the process, not by a close of the
  engine), or the loop is still running when the fuel of the model is used up.
\<close>

theorem engine_closes_only_on_leaving_loop:
  "list_all (\<lambda>ev. \<not> engine_close ev) (emitted s (final (main_loop k e 0 s)))
   \<and> (if list_ex peer_close (emitted s (final (main_loop k e 0 s)))
      then client_fd (final (main_loop k e 0 s)) = -1
      else client_fd (final (main_loop k e 0 s)) = client_fd s)
   \<and> (case main_loop k e 0 s of
        Done u \<Rightarrow>
          (if client_fd u = -1 then run_main_loop k e s = Done u
           else is_done (run_main_loop k e s)
                \<and> client_fd (final (run_main_loop k e s)) = -1
                \<and> emitted s (final (run_main_loop k e s))
                    = emitted s u @ [Sys_close Main_loop (client_fd s)]
                \<and> (\<not> running u
                     \<or> (trace u \<noteq> [] \<and> last (trace u) = Sys_perror ''select'')
                     \<or> (\<exists>v. fst (usbredirhost_read_guest_data e v) \<noteq> 0
                          \<and> u = snd (usbredirhost_read_guest_data e v))
                     \<or> (\<exists>v. fst (usbredirhost_write_guest_data e v) \<noteq> 0
                          \<and> u = snd (usbredirhost_write_guest_data e v))))
      | Exited c u \<Rightarrow>
          run_main_loop k e s = Exited c u \<and> c = 1 \<and> client_fd u \<noteq> -1
          \<and> last (trace u) = Sys_print Stderr ''Could not init libusb\<newline>''
      | Crashed u \<Rightarrow> run_main_loop k e s = Crashed u \<and> client_fd u \<noteq> -1 \<and> host u = None
      | Fuel_out u \<Rightarrow> run_main_loop k e s = Fuel_out u \<and> client_fd u \<noteq> -1)"
proof -
  let ?m = "main_loop k e 0 s"
  have inv: "loop_inv s (final ?m)" and op: "is_done ?m \<or> client_fd (final ?m) \<noteq> -1"
    using loop_inv_main_loop [OF loop_inv_refl, of s k e 0] by simp_all
  note d = loop_invD [OF inv]
  have "case ?m of
        Done u \<Rightarrow>
          (if client_fd u = -1 then run_main_loop k e s = Done u
           else is_done (run_main_loop k e s)
                \<and> client_fd (final (run_main_loop k e s)) = -1
                \<and> emitted s (final (run_main_loop k e s))
                    = emitted s u @ [Sys_close Main_loop (client_fd s)]
                \<and> (\<not> running u
                     \<or> (trace u \<noteq> [] \<and> last (trace u) = Sys_perror ''select'')
                     \<or> (\<exists>v. fst (usbredirhost_read_guest_data e v) \<noteq> 0
                          \<and> u = snd (usbredirhost_read_guest_data e v))
                     \<or> (\<exists>v. fst (usbredirhost_write_guest_data e v) \<noteq> 0
                          \<and> u = snd (usbredirhost_write_guest_data e v))))
      | Exited c u \<Rightarrow>
          run_main_loop k e s = Exited c u \<and> c = 1 \<and> client_fd u \<noteq> -1
          \<and> last (trace u) = Sys_print Stderr ''Could not init libusb\<newline>''
      | Crashed u \<Rightarrow> run_main_loop k e s = Crashed u \<and> client_fd u \<noteq> -1 \<and> host u = None
      | Fuel_out u \<Rightarrow> run_main_loop k e s = Fuel_out u \<and> client_fd u \<noteq> -1"
  proof (cases ?m)
    case (Done u)
    show ?thesis
    proof (cases "client_fd u = -1")
      case True
      with Done show ?thesis
        by (simp add: run_main_loop_def leave_main_loop_def)
    next
      case False
      have fd: "client_fd u = client_fd s"
        using d(4) Done False by (auto split: if_splits)
      have tr: "trace u = trace s @ emitted s u"
        using d(1) Done by simp
      have r: "run_main_loop k e s
                = Done ((call e (Sys_close Main_loop (client_fd s)) u)\<lparr>client_fd := -1\<rparr>)"
        using Done False fd by (simp add: run_main_loop_def leave_main_loop_def)
      have "emitted s (final (run_main_loop k e s))
              = emitted s u @ [Sys_close Main_loop (client_fd s)]"
        unfolding r using tr by (intro emitted_eq) simp
      moreover note main_loop_left_open [OF Done False]
      ultimately show ?thesis
        using Done False r by simp
    qed
  next
    case (Exited c u)
    with op main_loop_ends [of k e 0 s c u] show ?thesis
      by (simp add: run_main_loop_def)
  next
    case (Crashed u)
    with op main_loop_ends [of k e 0 s 0 u] show ?thesis
      by (simp add: run_main_loop_def)
  next
    case (Fuel_out u)
    with op show ?thesis
      by (simp add: run_main_loop_def)
  qed
  then show ?thesis
    using d(3,4) by simp
qed


theorem engine_closes_only_on_leaving_loop_witness:
  "wait_mode session_state
   \<and> list_ex peer_close
        (emitted session_state (final (main_loop (Suc 0) close_pending_env 0 session_state)))
   \<and> list_all (\<lambda>ev. \<not> engine_close ev)
        (emitted session_state (final (main_loop (Suc 0) close_pending_env 0 session_state)))
   \<and> client_fd (final (main_loop (Suc 0) close_pending_env 0 session_state)) = -1
   \<and> run_main_loop (Suc 0) close_pending_env session_state
       = main_loop (Suc 0) close_pending_env 0 session_state
   \<and> \<not> list_ex peer_close
        (emitted session_state (final (main_loop (Suc 0) pump_error_env 0 session_state)))
   \<and> list_all (\<lambda>ev. \<not> engine_close ev)
        (emitted session_state (final (main_loop (Suc 0) pump_error_env 0 session_state)))
   \<and> client_fd (final (main_loop (Suc 0) pump_error_env 0 session_state)) = 5
   \<and> running (final (main_loop (Suc 0) pump_error_env 0 session_state))
   \<and> emitted session_state (final (run_main_loop (Suc 0) pump_error_env session_state)) =
       emitted session_state (final (main_loop (Suc 0) pump_error_env 0 session_state))
       @ [Sys_close Main_loop 5]"
proof -
  have w: "wait_mode session_state" and fd: "client_fd session_state = 5"
    by (simp_all add: fixture_defs)
  note c = engine_closes_only_on_leaving_loop [of session_state "Suc 0" close_pending_env]
  note p = engine_closes_only_on_leaving_loop [of session_state "Suc 0" pump_error_env]
  have c1: "list_ex peer_close
        (emitted session_state (final (main_loop (Suc 0) close_pending_env 0 session_state)))"
    unfolding close_pending_loop(1) by (simp add: close_pending_run)
  from c have c2: "list_all (\<lambda>ev. \<not> engine_close ev)
        (emitted session_state (final (main_loop (Suc 0) close_pending_env 0 session_state)))"
    and c3: "if list_ex peer_close
              (emitted session_state (final (main_loop (Suc 0) close_pending_env 0 session_state)))
             then client_fd (final (main_loop (Suc 0) close_pending_env 0 session_state)) = -1
             else client_fd (final (main_loop (Suc 0) close_pending_env 0 session_state))
                    = client_fd session_state"
    by blast+
  from c3 c1 have c4: "client_fd (final (main_loop (Suc 0) close_pending_env 0 session_state)) = -1"
    by (simp del: main_loop.simps)
  from c have "case main_loop (Suc 0) close_pending_env 0 session_state of
        Done u \<Rightarrow>
          (if client_fd u = -1 then run_main_loop (Suc 0) close_pending_env session_state = Done u
           else True)
      | _ \<Rightarrow> True"
    by (auto simp del: main_loop.simps split: outcome.splits)
  then have c5: "run_main_loop (Suc 0) close_pending_env session_state
       = main_loop (Suc 0) close_pending_env 0 session_state"
    unfolding close_pending_loop(1) by (simp add: close_pending_loop(2) del: main_loop.simps)
  from p have p2: "list_all (\<lambda>ev. \<not> engine_close ev)
        (emitted session_state (final (main_loop (Suc 0) pump_error_env 0 session_state)))"
    by blast
  have p1: "\<not> list_ex peer_close
        (emitted session_state (final (main_loop (Suc 0) pump_error_env 0 session_state)))"
    by (simp add: pump_error_loop(2) del: main_loop.simps)
  obtain u where u: "main_loop (Suc 0) pump_error_env 0 session_state = Done u"
    using pump_error_loop(1) by (cases "main_loop (Suc 0) pump_error_env 0 session_state") simp_all
  have u5: "client_fd u = 5"
    using pump_error_loop(3) unfolding u by simp
  from p have "emitted session_state (final (run_main_loop (Suc 0) pump_error_env session_state))
                = emitted session_state u @ [Sys_close Main_loop (client_fd session_state)]"
    unfolding u using u5 by (simp del: main_loop.simps)
  then have p5: "emitted session_state (final (run_main_loop (Suc 0) pump_error_env session_state)) =
       emitted session_state (final (main_loop (Suc 0) pump_error_env 0 session_state))
       @ [Sys_close Main_loop 5]"
    unfolding u fd by simp
  show ?thesis
    using w c1 c2 c4 c5 p1 p2 pump_error_loop(3,4) p5 by blast
qed

section \<open>After the peer has closed\<close>

text \<open>
  Claim C2.  In every run of \<open>run_main_loop\<close>, with or without wait-mode and whether or
  not outbound data is pending, nothing forbidden follows a close by the peer: the
  server does not call the outbound pump again, does not enter the reconnection block,
  does not start the retry block and does not close the descriptor a second time.  Once
  the peer has closed, \<open>run_main_loop\<close> returns, with \<open>client_fd = -1\<close>: the session ends.
\<close>

theorem peer_close_ends_session:
  "quiet_after_close (emitted s (final (run_main_loop k e s)))
   \<and> (list_ex peer_close (emitted s (final (run_main_loop k e s))) \<longrightarrow>
        is_done (run_main_loop k e s) \<and> client_fd (final (run_main_loop k e s)) = -1)"
proof -
  let ?m = "main_loop k e 0 s"
  have inv: "loop_inv s (final ?m)" and op: "is_done ?m \<or> client_fd (final ?m) \<noteq> -1"
    using loop_inv_main_loop [OF loop_inv_refl, of s k e 0] by simp_all
  note d = loop_invD [OF inv]
  show ?thesis
  proof (cases "client_fd (final ?m) = -1")
    case True
    then have "run_main_loop k e s = Done (final ?m)"
      using op by (cases ?m) (auto simp: run_main_loop_def leave_main_loop_def)
    then show ?thesis
      using d True by simp
  next
    case False
    then have np: "\<not> list_ex peer_close (emitted s (final ?m))"
      using d(4) by (auto split: if_splits)
    have "trace (final (run_main_loop k e s)) = trace s @ emitted s (final ?m)
          \<or> trace (final (run_main_loop k e s))
              = trace s @ emitted s (final ?m) @ [Sys_close Main_loop (client_fd (final ?m))]"
      using d(1) by (cases ?m) (auto simp: run_main_loop_def leave_main_loop_def)
    then have "emitted s (final (run_main_loop k e s)) = emitted s (final ?m)
          \<or> emitted s (final (run_main_loop k e s))
              = emitted s (final ?m) @ [Sys_close Main_loop (client_fd (final ?m))]"
      by (auto dest: emitted_eq)
    then show ?thesis
      using np d(2) by (auto simp: quiet_after_close_append)
  qed
qed

theorem peer_close_ends_session_witness:
  "wait_mode session_state
   \<and> has_data_to_write_res close_pending_env (clock session_state) \<noteq> 0
   \<and> list_ex peer_close
        (emitted session_state (final (run_main_loop (Suc 0) close_pending_env session_state)))
   \<and> quiet_after_close
        (emitted session_state (final (run_main_loop (Suc 0) close_pending_env session_state)))
   \<and> is_done (run_main_loop (Suc 0) close_pending_env session_state)
   \<and> client_fd (final (run_main_loop (Suc 0) close_pending_env session_state)) = -1"
proof -
  have h: "wait_mode session_state"
    "has_data_to_write_res close_pending_env (clock session_state) \<noteq> 0"
    by (simp_all add: fixture_defs)
  have p: "list_ex peer_close
        (emitted session_state (final (run_main_loop (Suc 0) close_pending_env session_state)))"
    by (simp add: close_pending_run)
  from peer_close_ends_session [of session_state "Suc 0" close_pending_env] p h
  show ?thesis
    by blast
qed

section \<open>The liveness probe\<close>

text \<open>
  Claim C4.  In wait-mode, in the state Connected (\<open>wait_mode_state = 1\<close>), on a timed
  wake-up (\<open>n = 0\<close>) with the channel open: when the protocol layer does not report a
  disconnect and \<open>libusb_get_configuration\<close> fails, the calls of the state machine are
  \<open>usbredirhost_is_disconnected\<close>, \<open>libusb_get_configuration\<close>,
  \<open>usbredirhost_disconnect\<close>, and only then is the reconnection block entered.
\<close>

theorem probe_failure_forces_disconnect:
  assumes "wait_mode s" and "client_fd s \<noteq> -1"
    and "is_disconnected_res e (clock s) = 0"
    and "get_configuration_res e (Suc (clock s)) \<noteq> 0"
  shows "\<exists>rest. trace (end_state snd (wait_mode_eval k e 0 1 s)) =
           trace s @ [Host_is_disconnected, Usb_get_configuration, Host_disconnect,
                      Enter_reconnecting] @ rest"
proof -
  let ?s2 = "usbredirhost_disconnect e
               (snd (libusb_get_configuration e (snd (usbredirhost_is_disconnected e s))))"
  have tr: "trace ?s2 = trace s @ [Host_is_disconnected, Usb_get_configuration, Host_disconnect]"
    and fd: "client_fd ?s2 \<noteq> -1"
    using assms by (simp_all add: wrapper_defs)
  have "end_state snd (wait_mode_eval k e 0 1 s) = final (reconnect k e ?s2)"
    using assms
    by (simp add: wait_mode_eval_def probe_def wrapper_defs Let_def split: outcome.splits)
  then show ?thesis
    using reconnect_trace [OF fd, of k e] tr by auto
qed

theorem probe_failure_forces_disconnect_witness:
  "wait_mode session_state \<and> client_fd session_state \<noteq> -1
   \<and> is_disconnected_res replug_env (clock session_state) = 0
   \<and> get_configuration_res replug_env (Suc (clock session_state)) \<noteq> 0
   \<and> (\<exists>rest. trace (end_state snd (wait_mode_eval (Suc 0) replug_env 0 1 session_state)) =
         [Host_is_disconnected, Usb_get_configuration, Host_disconnect, Enter_reconnecting]
         @ rest)"
proof -
  have h: "wait_mode session_state" "client_fd session_state \<noteq> -1"
    "is_disconnected_res replug_env (clock session_state) = 0"
    "get_configuration_res replug_env (Suc (clock session_state)) \<noteq> 0"
    by (simp_all add: fixture_defs)
  have t: "trace session_state = []"
    by (simp add: fixture_defs)
  from probe_failure_forces_disconnect [OF h, of "Suc 0"] t h
  show ?thesis
    by simp
qed

section \<open>The order of dispatch\<close>

text \<open>
  Claim C3 as stated fails.  In wait-mode, on a timed wake-up in the state Connected
  with a device that does not answer the probe, one iteration services libusb (line
  231), then, in the reconnection block, pumps outbound data (line 284) and after that
  inbound data (line 286).
\<close>

theorem reconnection_pumps_out_of_order:
  "emitted session_state
     (end_state (\<lambda>r. snd (snd r)) (iteration (Suc 0) replug_env 1 session_state)) =
     [Host_has_data_to_write, Usb_get_pollfds, Usb_get_next_timeout,
      Sys_select 6 [5] [] (Some (Default_timeout 3)), Usb_handle_events_timeout,
      Host_is_disconnected, Usb_get_configuration, Host_disconnect, Enter_reconnecting,
      Host_write_guest_data, Sys_sleep 3, Host_read_guest_data, Usb_exit, Usb_init,
      Usb_set_debug 3, Usb_open_device_with_vid_pid 4660 43981, Host_save_caps,
      Host_open (Some 9) True, Host_restore_caps [5], Host_write_guest_data]
   \<and> \<not> pump_ordered (emitted session_state
         (end_state (\<lambda>r. snd (snd r)) (iteration (Suc 0) replug_env 1 session_state)))"
  by (simp add: replug_iteration_run pump_ordered_def List.map_filter_simps)

text \<open>
  Claim C3, as amended.  In every iteration, the calls made before the wait-mode
  reconnection block is entered (all calls of the iteration, when it is not entered)
  are in the order inbound pump, outbound pump, servicing of libusb's events.
\<close>

theorem dispatch_order:
  "pump_ordered (before_reconnect
     (emitted s (end_state (\<lambda>r. snd (snd r)) (iteration k e w s))))"
proof -
  obtain pollfds ans s1 where wfe: "wait_for_events e s = (pollfds, ans, s1)"
    by (cases "wait_for_events e s") auto
  have inv1: "front_inv 0 s s1"
    using front_inv_wait_for_events [OF front_inv_refl, of 0 s e] wfe by simp
  show ?thesis
  proof (cases ans)
    case (Sel_failed er)
    have "front_inv 0 s (call e (Sys_perror ''select'') s1)"
      using inv1 by (auto intro!: front_inv_call)
    then show ?thesis
      using inv1 wfe Sel_failed by (auto simp: iteration_def intro: front_inv_ordered)
  next
    case (Sel_ready rd wr)
    let ?n = "ready_count rd wr"
    let ?s2 = "if ?n = 0 then libusb_handle_events_timeout e s1 else s1"
    obtain c s3 where disp: "dispatch e pollfds rd wr ?s2 = (c, s3)"
      by force
    have inv3: "front_inv 2 s s3"
    proof (cases "?n = 0")
      case True
      then have "rd = []" and "wr = []"
        by (simp_all add: ready_count_def flip: of_nat_add)
      then have "s3 = libusb_handle_events_timeout e s1"
        using disp True
        by (auto simp: dispatch_def FD_ISSET_def usb_ready_def list_ex_iff ready_count_def
              Let_def split: if_splits)
      then show ?thesis
        using inv1 by (auto simp: libusb_handle_events_timeout_def intro!: front_inv_call)
    next
      case False
      then show ?thesis
        using front_inv_dispatch [OF inv1, of e pollfds rd wr] disp by simp
    qed
    have "front_inv 2 s (libusb_handle_events_timeout e s1)"
      using inv1 by (auto simp: libusb_handle_events_timeout_def intro!: front_inv_call)
    moreover have "front_inv 2 s s1"
      using inv1 by (rule front_inv_mono) simp
    ultimately have inv2: "front_inv 2 s ?s2"
      by simp
    note wm = wait_mode_eval_ordered [OF inv3, of k e ?n w]
    show ?thesis
    proof (cases "?n = 0 \<and> \<not> wait_mode ?s2")
      case True
      then have n0: "?n = 0" and nw: "\<not> wait_mode (libusb_handle_events_timeout e s1)"
        by (simp_all split: if_splits)
      have "iteration k e w s = Done (Next, w, libusb_handle_events_timeout e s1)"
        using wfe Sel_ready n0 nw by (simp add: iteration_def Let_def)
      then show ?thesis
        using front_inv_ordered [OF inv2] n0 by simp
    next
      case False
      then have it: "iteration k e w s =
          (case c of
             Break \<Rightarrow> Done (Break, w, s3)
           | Next \<Rightarrow>
               (case wait_mode_eval k e ?n w s3 of
                  Done (w', s4) \<Rightarrow> Done (Next, w', s4)
                | Exited x s4 \<Rightarrow> Exited x s4
                | Crashed s4 \<Rightarrow> Crashed s4
                | Fuel_out s4 \<Rightarrow> Fuel_out s4))"
        using wfe Sel_ready disp by (simp add: iteration_def Let_def)
      show ?thesis
        unfolding it using front_inv_ordered [OF inv3] wm
        by (cases c; cases "wait_mode_eval k e ?n w s3") auto
    qed
  qed
qed

theorem dispatch_order_witness:
  "before_reconnect (emitted session_state
     (end_state (\<lambda>r. snd (snd r)) (iteration (Suc 0) busy_env 1 session_state))) =
     [Host_has_data_to_write, Usb_get_pollfds, Usb_get_next_timeout,
      Sys_select 8 [7, 5] [5] (Some (Default_timeout 3)), Host_read_guest_data,
      Sys_read 5 (Io_done 10), Host_write_guest_data, Sys_write 5 (Io_done 10),
      Usb_handle_events_timeout, Host_is_disconnected]
   \<and> pump_ordered (before_reconnect (emitted session_state
         (end_state (\<lambda>r. snd (snd r)) (iteration (Suc 0) busy_env 1 session_state))))
   \<and> before_reconnect (emitted session_state
     (end_state (\<lambda>r. snd (snd r)) (iteration (Suc 0) replug_env 1 session_state))) =
     [Host_has_data_to_write, Usb_get_pollfds, Usb_get_next_timeout,
      Sys_select 6 [5] [] (Some (Default_timeout 3)), Usb_handle_events_timeout,
      Host_is_disconnected, Usb_get_configuration, Host_disconnect]
   \<and> pump_ordered (before_reconnect (emitted session_state
         (end_state (\<lambda>r. snd (snd r)) (iteration (Suc 0) replug_env 1 session_state))))"
  using dispatch_order [of session_state "Suc 0" busy_env 1]
    dispatch_order [of session_state "Suc 0" replug_env 1]
  by (simp add: replug_iteration_run busy_iteration_run before_reconnect_def)

section \<open>The termination flag\<close>





section \<open>The device identifier decides how the device is located\<close>

text \<open>
  Claim C7 as stated fails for fields that do not fit the variables they are stored in.
  The identifier \<open>ffffffff:1\<close> has the form \<open>VENDOR:PRODUCT\<close>; its vendor wraps to
  \<open>-1\<close>, and \<open>find_device\<close> scans the device list and makes no open by vendor and
  product.  For \<open>12345:1\<close> the open by vendor and product is made with the vendor
  \<open>0x2345\<close>, not with the value written.  The identifier \<open>4294967297-4\<close> has the form
  \<open>BUS-ADDRESS\<close>; with a device attached at bus 1 address 4, that device is opened,
  although its bus is not the one written.
\<close>

theorem identifier_out_of_range:
  "digits 16 ''ffffffff'' \<and> digits 16 ''12345'' \<and> digits 16 ''1''
   \<and> digits 10 ''4294967297'' \<and> digits 10 ''4''
   \<and> number 16 ''ffffffff'' = 0xffffffff \<and> number 16 ''12345'' = 0x12345
   \<and> number 10 ''4294967297'' = 4294967297
   \<and> emitted (final (parse_device_id quiet_env ''usbredirserver'' ''ffffffff:1'' initial_state))
        (find_device two_devices_env
           (final (parse_device_id quiet_env ''usbredirserver'' ''ffffffff:1'' initial_state)))
       = [Usb_get_device_list, Usb_free_device_list]
   \<and> emitted (final (parse_device_id quiet_env ''usbredirserver'' ''12345:1'' initial_state))
        (find_device two_devices_env
           (final (parse_device_id quiet_env ''usbredirserver'' ''12345:1'' initial_state)))
       = [Usb_open_device_with_vid_pid 0x2345 1]
   \<and> emitted (final (parse_device_id quiet_env ''usbredirserver'' ''4294967297-4'' initial_state))
        (find_device two_devices_env
           (final (parse_device_id quiet_env ''usbredirserver'' ''4294967297-4'' initial_state)))
       = [Usb_get_device_list, Usb_open \<lparr>bus_number = 1, device_address = 4\<rparr>,
          Usb_free_device_list]"
  by (simp add: out_of_range_parse)
     (simp add: digits_def number_def is_digit_def digit_value_def fixture_defs run_defs
        libusb_open_def)

text \<open>
  Claim C7, as amended.  Let the identifier be parsed in a state where no vendor is set,
  as in \<open>main\<close>.  If it has the form \<open>BUS-ADDRESS\<close>, both fields decimal, parsing
  succeeds and \<open>find_device\<close> resolves exclusively by scanning: it asks for the device
  list, opens the first device of the list whose bus and address are the two values
  stored, if there is one, frees the list, and makes no other call; it never opens by
  vendor and product.  The values stored are the numbers written when these are below
  \<open>2\<^sup>3\<^sup>1\<close>.  If the identifier has the form \<open>VENDOR:PRODUCT\<close>, both fields
  hexadecimal with values below \<open>2\<^sup>1\<^sup>6\<close> (USB ids have 16 bits), parsing succeeds and
  the only call \<open>find_device\<close> makes is \<open>libusb_open_device_with_vid_pid\<close> with the two
  values written: it never asks for the device list.  For hexadecimal fields of any
  size, the ids passed are the values stored cut to 16 bits, unless the vendor stored is
  \<open>-1\<close>: then the device list is scanned instead.
\<close>

theorem device_identifier_forms:
  assumes "usbvendor s = -1"
  shows "(digits 10 b \<and> digits 10 a \<and> number 10 b < 2 ^ 31 \<and> number 10 a < 2 ^ 31 \<longrightarrow>
           (\<exists>s'. parse_device_id e argv0 (b @ ''-'' @ a) s = Done s'
              \<and> emitted s' (find_device e' s') =
                  Usb_get_device_list #
                  (case List.find (\<lambda>d. uint (bus_number d) = number 10 b
                                        \<and> uint (device_address d) = number 10 a)
                          (devices (get_device_list_res e' (clock s'))) of
                     None \<Rightarrow> []
                   | Some d \<Rightarrow> [Usb_open d])
                  @ [Usb_free_device_list]))
         \<and> (digits 10 b \<and> digits 10 a \<longrightarrow>
           (\<exists>s'. parse_device_id e argv0 (b @ ''-'' @ a) s = Done s'
              \<and> emitted s' (find_device e' s') =
                  Usb_get_device_list #
                  (case List.find (\<lambda>d. uint (bus_number d) = stored 10 b
                                        \<and> uint (device_address d) = stored 10 a)
                          (devices (get_device_list_res e' (clock s'))) of
                     None \<Rightarrow> []
                   | Some d \<Rightarrow> [Usb_open d])
                  @ [Usb_free_device_list]))
         \<and> (digits 16 v \<and> digits 16 p \<and> number 16 v < 2 ^ 16 \<and> number 16 p < 2 ^ 16 \<longrightarrow>
           (\<exists>s' vid pid. parse_device_id e argv0 (v @ '':'' @ p) s = Done s'
              \<and> emitted s' (find_device e' s') = [Usb_open_device_with_vid_pid vid pid]
              \<and> uint vid = number 16 v \<and> uint pid = number 16 p))
         \<and> (digits 16 v \<and> digits 16 p \<longrightarrow>
           (\<exists>s'. parse_device_id e argv0 (v @ '':'' @ p) s = Done s'
              \<and> emitted s' (find_device e' s') =
                  (if stored 16 v \<noteq> -1
                   then [Usb_open_device_with_vid_pid (word_of_int (stored 16 v))
                           (word_of_int (stored 16 p))]
                   else Usb_get_device_list #
                        (case List.find (\<lambda>d. uint (bus_number d) = usbbus s
                                              \<and> uint (device_address d) = usbaddr s)
                                (devices (get_device_list_res e' (clock s'))) of
                           None \<Rightarrow> []
                         | Some d \<Rightarrow> [Usb_open d])
                        @ [Usb_free_device_list])))"
proof -
  have bus: "\<exists>s'. parse_device_id e argv0 (b @ ''-'' @ a) s = Done s'
              \<and> emitted s' (find_device e' s') =
                  Usb_get_device_list #
                  (case List.find (\<lambda>d. uint (bus_number d) = stored 10 b
                                        \<and> uint (device_address d) = stored 10 a)
                          (devices (get_device_list_res e' (clock s'))) of
                     None \<Rightarrow> []
                   | Some d \<Rightarrow> [Usb_open d])
                  @ [Usb_free_device_list]"
    if d: "digits 10 b" "digits 10 a"
  proof -
    let ?s' = "s\<lparr>usbbus := stored 10 b, usbaddr := stored 10 a\<rparr>"
    have "usbvendor ?s' = -1" using assms by simp
    from find_device_scan [OF this, of e'] parse_bus_address [OF d, of e argv0 s]
    show ?thesis
      by (intro exI [of _ ?s']) simp
  qed
  have vp: "\<exists>s'. parse_device_id e argv0 (v @ '':'' @ p) s = Done s'
              \<and> emitted s' (find_device e' s') =
                  (if stored 16 v \<noteq> -1
                   then [Usb_open_device_with_vid_pid (word_of_int (stored 16 v))
                           (word_of_int (stored 16 p))]
                   else Usb_get_device_list #
                        (case List.find (\<lambda>d. uint (bus_number d) = usbbus s
                                              \<and> uint (device_address d) = usbaddr s)
                                (devices (get_device_list_res e' (clock s'))) of
                           None \<Rightarrow> []
                         | Some d \<Rightarrow> [Usb_open d])
                        @ [Usb_free_device_list])"
    if d: "digits 16 v" "digits 16 p"
  proof -
    let ?s' = "s\<lparr>usbvendor := stored 16 v, usbproduct := stored 16 p\<rparr>"
    show ?thesis
    proof (cases "stored 16 v = -1")
      case True
      then have "usbvendor ?s' = -1" by simp
      from find_device_scan [OF this, of e'] parse_vendor_product [OF d, of e argv0 s] True
      show ?thesis
        by (intro exI [of _ ?s']) simp
    next
      case False
      then have "usbvendor ?s' \<noteq> -1" by simp
      from find_device_vid_pid [OF this, of e'] parse_vendor_product [OF d, of e argv0 s] False
      show ?thesis
        by (intro exI [of _ ?s']) simp
    qed
  qed
  have bus_small: "\<exists>s'. parse_device_id e argv0 (b @ ''-'' @ a) s = Done s'
              \<and> emitted s' (find_device e' s') =
                  Usb_get_device_list #
                  (case List.find (\<lambda>d. uint (bus_number d) = number 10 b
                                        \<and> uint (device_address d) = number 10 a)
                          (devices (get_device_list_res e' (clock s'))) of
                     None \<Rightarrow> []
                   | Some d \<Rightarrow> [Usb_open d])
                  @ [Usb_free_device_list]"
    if d: "digits 10 b" "digits 10 a" and n: "number 10 b < 2 ^ 31" "number 10 a < 2 ^ 31"
    using bus [OF d] stored_small [OF d(1) n(1)] stored_small [OF d(2) n(2)] by simp
  have vp_small: "\<exists>s' vid pid. parse_device_id e argv0 (v @ '':'' @ p) s = Done s'
              \<and> emitted s' (find_device e' s') = [Usb_open_device_with_vid_pid vid pid]
              \<and> uint vid = number 16 v \<and> uint pid = number 16 p"
    if d: "digits 16 v" "digits 16 p" and n: "number 16 v < 2 ^ 16" "number 16 p < 2 ^ 16"
    using vp [OF d] stored_usb_id [OF d(1) n(1)] stored_usb_id [OF d(2) n(2)] by auto
  show ?thesis
    using bus vp bus_small vp_small by blast
qed

theorem device_identifier_forms_witness:
  "usbvendor initial_state = -1
   \<and> digits 10 ''1'' \<and> digits 10 ''4'' \<and> digits 16 ''1234'' \<and> digits 16 ''abcd''
   \<and> number 10 ''1'' < 2 ^ 31 \<and> number 10 ''4'' < 2 ^ 31
   \<and> number 16 ''1234'' < 2 ^ 16 \<and> number 16 ''abcd'' < 2 ^ 16
   \<and> (\<exists>s'. parse_device_id quiet_env ''usbredirserver'' ''1-4'' initial_state = Done s'
         \<and> emitted s' (find_device two_devices_env s') =
             [Usb_get_device_list, Usb_open \<lparr>bus_number = 1, device_address = 4\<rparr>,
              Usb_free_device_list])
   \<and> (\<exists>s' vid pid.
         parse_device_id quiet_env ''usbredirserver'' ''1234:abcd'' initial_state = Done s'
         \<and> emitted s' (find_device two_devices_env s') = [Usb_open_device_with_vid_pid vid pid]
         \<and> uint vid = 0x1234 \<and> uint pid = 0xabcd)"
proof -
  have h: "usbvendor initial_state = -1"
    by (simp add: initial_state_def)
  have d: "devices (get_device_list_res two_devices_env t) =
             [\<lparr>bus_number = 1, device_address = 2\<rparr>, \<lparr>bus_number = 1, device_address = 4\<rparr>]" for t
    by (simp add: two_devices_env_def quiet_env_def)
  from device_identifier_forms [OF h, of "''1''" "''4''" quiet_env "''usbredirserver''"
      two_devices_env "''1234''" "''abcd''"]
  show ?thesis
    using h by (simp add: example_fields d)
qed

section \<open>A malformed identifier that is accepted\<close>

text \<open>
  Claim C8 asks that every malformed device identifier and every malformed numeric
  option value end in the usage message and a non-zero exit before any resource is
  opened.  The identifier \<open>:5\<close> is malformed, its vendor field being empty, and it is
  accepted: \<open>strtol\<close> reads no digit, returns 0 and leaves the rest of the string at the
  colon, which passes the test of line 395.  The server goes on as for vendor 0 and
  product 5: it installs its signal handlers, initialises libusb, creates, binds and
  listens on its socket, accepts a client and asks libusb for the device.  An empty
  value of a numeric option is accepted as 0 in the same way.
\<close>

theorem malformed_identifier_accepted:
  "\<not> digits 16 []
   \<and> parse_device_id quiet_env ''usbredirserver'' '':5'' initial_state
       = Done (initial_state\<lparr>usbvendor := 0, usbproduct := 5\<rparr>)
   \<and> numeric_option quiet_env ''Invalid value for --port: '' [] ''usbredirserver''
         initial_state = Done 0
   \<and> trace (final (main (Suc 0) quiet_env ''usbredirserver'' [] ['':5''])) =
       [Sys_sigaction, Sys_sigaction, Sys_sigaction, Sys_sigaction, Usb_init, Usb_set_debug 3,
        Sys_socket, Sys_setsockopt 3, Sys_bind 3 4000, Sys_listen 3, Sys_accept 3,
        Sys_fcntl 5, Sys_fcntl 5, Usb_open_device_with_vid_pid 0 5, Sys_close Main_fn 5]"
  by (simp add: empty_vendor_parse empty_number_parse empty_vendor_run digits_def)

end
